theory Spec2Isabelle
  imports Main
begin

section \<open>Data model of \<open>LinkedInScraper\<close>\<close>

text \<open>
  The class \<open>LinkedInScraper\<close> (src/linkedin-scraper.ts) has two private fields, \<open>_page\<close>
  (a Playwright page or \<open>null\<close>) and \<open>_screenshotCount\<close> (starting at 1). Every method is
  modelled as a function from the object's state to a result and the state afterwards.
  The calls the object makes on its collaborators (browser, page, extractor) are
  appended to a trace, oldest first, so that "performs no navigation" or "exactly three
  extractions" are statements about that trace.
\<close>

text \<open>
  The errors. The source throws plain \<open>Error\<close> objects that differ by their message; the
  constructors carry the names the specification gives them:
  \<^item> \<open>NotInitialized\<close>: "Scraper not initialized" (\<open>searchJobs\<close>),
  \<^item> \<open>AuthenticationFailed\<close>: "Authentication failed. Please check your li_at cookie."
    (\<open>initialize\<close>),
  \<^item> \<open>PageUnavailable\<close>: "Failed to load page" (\<open>_paginate\<close>, \<open>_loadJobs\<close>),
  \<^item> \<open>CaptureFailed\<close>: a rejection of \<open>page.screenshot\<close>,
  \<^item> \<open>CloseFailed\<close>: a rejection of \<open>browser.close\<close>,
  \<^item> \<open>PageError\<close>: a rejection of a page operation during convergence detection
    (detached page, navigation race),
  \<^item> \<open>Timeout\<close>, \<open>RetryExhausted\<close>: the two failures of the retry policy.
\<close>

datatype error =
    NotInitialized
  | AuthenticationFailed
  | PageUnavailable
  | CaptureFailed
  | CloseFailed
  | PageError
  | Timeout
  | RetryExhausted

text \<open>
  A URL is kept in parsed form, as \<open>new URL(...)\<close> presents it: everything before the
  query, and the decoded name-value pairs of \<open>searchParams\<close> in their order.
\<close>

record url =
  base :: string
  query :: "(string \<times> string) list"

record page_handle =
  current :: url

text \<open>The labels of the diagnostic captures (the log texts of \<open>_takeScreenshot\<close>).\<close>

datatype label =
    AuthFailedShot    \<comment> \<open>"Authentication failed"\<close>
  | HomePage          \<comment> \<open>"Home page"\<close>
  | SearchPage        \<comment> \<open>"Search jobs page"\<close>
  | NoJobsFound       \<comment> \<open>"No jobs found"\<close>
  | LimitReached      \<comment> \<open>"Job limit reached"\<close>

datatype event =
    Launch                  \<comment> \<open>\<open>chromium.launch\<close>\<close>
  | NewContext              \<comment> \<open>\<open>browser.newContext\<close>\<close>
  | AddCookie string        \<comment> \<open>\<open>ctx.addCookies\<close> with the \<open>li_at\<close> value\<close>
  | NewPage                 \<comment> \<open>\<open>ctx.newPage\<close>\<close>
  | Goto url                \<comment> \<open>\<open>page.goto\<close>\<close>
  | Capture nat label       \<comment> \<open>\<open>page.screenshot\<close>, with the counter that names the file\<close>
  | LoadJobs                \<comment> \<open>one call of \<open>_loadJobs\<close> (a convergence pass)\<close>
  | Extract                 \<comment> \<open>\<open>jobDataExtractor.extractJobCardsData\<close>\<close>
  | BrowserClose            \<comment> \<open>\<open>browser.close\<close>\<close>

record state =
  page :: "page_handle option"
  screenshotCount :: nat
  trace :: "event list"

definition new_scraper :: state where
  "new_scraper = \<lparr>page = None, screenshotCount = 1, trace = []\<rparr>"

type_synonym job = string

section \<open>JavaScript primitives used by \<open>_paginate\<close>\<close>

text \<open>
  \<open>URLSearchParams.get\<close> returns the value of the first pair with the name, or \<open>null\<close>.
  \<open>URLSearchParams.set\<close> overwrites the first pair with the name and removes the other
  pairs with it; it appends the pair when the name is absent.
\<close>

fun searchParams_get :: "(string \<times> string) list \<Rightarrow> string \<Rightarrow> string option" where
  "searchParams_get [] k = None"
| "searchParams_get ((n, v) # ps) k = (if n = k then Some v else searchParams_get ps k)"

fun searchParams_set :: "(string \<times> string) list \<Rightarrow> string \<Rightarrow> string \<Rightarrow> (string \<times> string) list" where
  "searchParams_set [] k v = [(k, v)]"
| "searchParams_set ((n, w) # ps) k v =
     (if n = k then (k, v) # filter (\<lambda>p. fst p \<noteq> k) ps
      else (n, w) # searchParams_set ps k v)"

text \<open>
  \<open>parseInt(s, 10)\<close>: leading white space is skipped, then an optional sign, then the
  longest run of decimal digits; when there is no digit the result is \<open>NaN\<close>, modelled as
  \<open>None\<close>. A number is an unbounded integer here, which is what the source computes
  below \<open>2 ^ 53\<close>; from there on the source rounds to a double, and ECMAScript leaves
  the value of more than 20 significant digits to the implementation.

  A string is the sequence of its UTF-8 bytes. The white space that \<open>parseInt\<close> skips is
  the \<open>StrWhiteSpaceChar\<close> of ECMAScript: TAB, LF, VT, FF, CR, the space, U+00A0, U+1680,
  U+2000 to U+200A, U+2028, U+2029, U+202F, U+205F, U+3000 and U+FEFF.
\<close>

definition space_sequences :: "string list" where
  "space_sequences =
     [[CHR 0x09], [CHR 0x0A], [CHR 0x0B], [CHR 0x0C], [CHR 0x0D], [CHR 0x20],
      [CHR 0xC2, CHR 0xA0],
      [CHR 0xE1, CHR 0x9A, CHR 0x80],
      [CHR 0xE2, CHR 0x80, CHR 0x80], [CHR 0xE2, CHR 0x80, CHR 0x81],
      [CHR 0xE2, CHR 0x80, CHR 0x82], [CHR 0xE2, CHR 0x80, CHR 0x83],
      [CHR 0xE2, CHR 0x80, CHR 0x84], [CHR 0xE2, CHR 0x80, CHR 0x85],
      [CHR 0xE2, CHR 0x80, CHR 0x86], [CHR 0xE2, CHR 0x80, CHR 0x87],
      [CHR 0xE2, CHR 0x80, CHR 0x88], [CHR 0xE2, CHR 0x80, CHR 0x89],
      [CHR 0xE2, CHR 0x80, CHR 0x8A],
      [CHR 0xE2, CHR 0x80, CHR 0xA8], [CHR 0xE2, CHR 0x80, CHR 0xA9],
      [CHR 0xE2, CHR 0x80, CHR 0xAF],
      [CHR 0xE2, CHR 0x81, CHR 0x9F],
      [CHR 0xE3, CHR 0x80, CHR 0x80],
      [CHR 0xEF, CHR 0xBB, CHR 0xBF]]"

text \<open>The number of bytes of the white-space character a string begins with, or 0.\<close>

definition leading_space :: "string \<Rightarrow> nat" where
  "leading_space s =
     (case find (\<lambda>w. take (length w) s = w) space_sequences of
        None \<Rightarrow> 0
      | Some w \<Rightarrow> length w)"

fun skip_space :: "string \<Rightarrow> string" where
  "skip_space [] = []"
| "skip_space (c # cs) =
     (if leading_space (c # cs) = 0 then c # cs
      else skip_space (drop (leading_space (c # cs) - 1) cs))"

definition is_digit :: "char \<Rightarrow> bool" where
  "is_digit c \<longleftrightarrow> 48 \<le> (of_char c :: nat) \<and> (of_char c :: nat) \<le> 57"

definition digit_value :: "char \<Rightarrow> nat" where
  "digit_value c = of_char c - 48"

fun digits_value :: "nat \<Rightarrow> string \<Rightarrow> nat" where
  "digits_value acc [] = acc"
| "digits_value acc (c # cs) =
     (if is_digit c then digits_value (10 * acc + digit_value c) cs else acc)"

definition parse_unsigned :: "string \<Rightarrow> nat option" where
  "parse_unsigned s =
     (case s of [] \<Rightarrow> None
      | c # cs \<Rightarrow> if is_digit c then Some (digits_value 0 s) else None)"

definition parseInt :: "string \<Rightarrow> int option" where
  "parseInt s =
     (case skip_space s of
        [] \<Rightarrow> None
      | c # cs \<Rightarrow>
          if c = CHR ''-'' then map_option (\<lambda>n. - int n) (parse_unsigned cs)
          else if c = CHR ''+'' then map_option int (parse_unsigned cs)
          else map_option int (parse_unsigned (c # cs)))"

text \<open>The text of a number in a template literal: decimal digits, or \<open>NaN\<close>.\<close>

fun nat_to_string :: "nat \<Rightarrow> string" where
  "nat_to_string n =
     (if n < 10 then [char_of (48 + n)]
      else nat_to_string (n div 10) @ [char_of (48 + n mod 10)])"

declare nat_to_string.simps [simp del]

definition number_to_string :: "int option \<Rightarrow> string" where
  "number_to_string x =
     (case x of
        None \<Rightarrow> ''NaN''
      | Some i \<Rightarrow> if i < 0 then CHR ''-'' # nat_to_string (nat (- i)) else nat_to_string (nat i))"

text \<open>\<open>offset + paginationSize\<close>: a sum with \<open>NaN\<close> is \<open>NaN\<close>.\<close>

definition number_add :: "int option \<Rightarrow> int \<Rightarrow> int option" where
  "number_add x k = map_option (\<lambda>i. i + k) x"

section \<open>\<open>_paginate\<close>\<close>

text \<open>
  \<open>url.searchParams.get("start") || "0"\<close>: the operator \<open>||\<close> takes its right operand when
  the left one is \<open>null\<close> or the empty string.
\<close>

definition start_or_zero :: "url \<Rightarrow> string" where
  "start_or_zero u =
     (case searchParams_get (query u) ''start'' of
        None \<Rightarrow> ''0''
      | Some v \<Rightarrow> if v = [] then ''0'' else v)"

definition next_url :: "int \<Rightarrow> url \<Rightarrow> url" where
  "next_url paginationSize u =
     (let offset = parseInt (start_or_zero u)
      in u\<lparr>query := searchParams_set (query u) ''start''
                       (number_to_string (number_add offset paginationSize))\<rparr>)"

text \<open>\<open>page.goto\<close> is taken to land on the URL it is given.\<close>

definition goto :: "url \<Rightarrow> page_handle \<Rightarrow> state \<Rightarrow> state" where
  "goto u p s = s\<lparr>page := Some (p\<lparr>current := u\<rparr>), trace := trace s @ [Goto u]\<rparr>"

definition paginate :: "int \<Rightarrow> state \<Rightarrow> (error + unit) \<times> state" where
  "paginate paginationSize s =
     (case page s of
        None \<Rightarrow> (Inl PageUnavailable, s)
      | Some p \<Rightarrow> (Inr (), goto (next_url paginationSize (current p)) p s))"

section \<open>The environment\<close>

text \<open>
  What the browser, the site and the extractor answer is not decided by the class; it is
  a parameter of the model:
  \<^item> \<open>home\<close> and \<open>jobsSearch\<close> are the constants \<open>LI_URLS.home\<close> and \<open>LI_URLS.jobsSearch\<close>
    of \<open>./constants\<close> (\<open>jobsSearch\<close> is taken to have no query of its own);
  \<^item> \<open>marker_visible\<close> is what \<open>isVisible()\<close> answers for the logged-in marker
    \<open>SELECTORS.activeMenu\<close> on the home page, that is, whether the cookie belongs to a
    valid session;
  \<^item> \<open>shot_fails n\<close> tells whether \<open>page.screenshot\<close> rejects when the counter is \<open>n\<close>;
  \<^item> \<open>polls c a i\<close> is the \<open>i\<close>-th reading of the list size in attempt \<open>a\<close> of the
    convergence pass of search cycle \<open>c\<close>: \<open>Inr n\<close> when \<open>count()\<close> answers \<open>n\<close>, \<open>Inl e\<close>
    when the scroll, the wait or the count of that round rejects;
  \<^item> \<open>attempt_ms c a\<close> is the time in milliseconds that attempt \<open>a\<close> of the convergence
    pass of search cycle \<open>c\<close> takes until it returns or throws, the 200 ms waits of its
    rounds included;
  \<^item> \<open>batches c\<close> is what \<open>extractJobCardsData\<close> returns in search cycle \<open>c\<close>;
  \<^item> \<open>close_fails\<close> tells whether \<open>browser.close()\<close> rejects.
\<close>

record env =
  home :: url
  jobsSearch :: string
  marker_visible :: bool
  shot_fails :: "nat \<Rightarrow> bool"
  polls :: "nat \<Rightarrow> nat \<Rightarrow> nat \<Rightarrow> error + nat"
  attempt_ms :: "nat \<Rightarrow> nat \<Rightarrow> nat"
  batches :: "nat \<Rightarrow> job list"
  close_fails :: bool

section \<open>\<open>_takeScreenshot\<close> and \<open>_isLoggedIn\<close>\<close>

text \<open>
  \<open>await this._page?.screenshot(...)\<close>: without a page the call is skipped; a rejection
  of the call leaves the method at once, before the counter is incremented. There is no
  \<open>try\<close> around the call.
\<close>

definition takeScreenshot :: "env \<Rightarrow> label \<Rightarrow> state \<Rightarrow> (error + unit) \<times> state" where
  "takeScreenshot env lbl s =
     (case page s of
        None \<Rightarrow> (Inr (), s\<lparr>screenshotCount := screenshotCount s + 1\<rparr>)
      | Some p \<Rightarrow>
          let s1 = s\<lparr>trace := trace s @ [Capture (screenshotCount s) lbl]\<rparr>
          in if shot_fails env (screenshotCount s) then (Inl CaptureFailed, s1)
             else (Inr (), s1\<lparr>screenshotCount := screenshotCount s + 1\<rparr>))"

text \<open>
  \<open>_isLoggedIn\<close> is an \<open>async\<close> method: a call of it that is not awaited yields the promise
  of its boolean, not the boolean. The promise is an object, and \<open>!\<close> of an object is
  \<open>false\<close> whatever the promise holds.
\<close>

datatype 'a promise = Promise 'a

definition isLoggedIn :: "env \<Rightarrow> state \<Rightarrow> bool promise" where
  "isLoggedIn env s =
     Promise (case page s of None \<Rightarrow> False | Some p \<Rightarrow> marker_visible env)"

fun not_object :: "'a promise \<Rightarrow> bool" where
  "not_object (Promise v) = False"

section \<open>\<open>initialize\<close> and \<open>close\<close>\<close>

definition blank_page :: page_handle where
  "blank_page = \<lparr>current = \<lparr>base = ''about:blank'', query = []\<rparr>\<rparr>"

definition initialize :: "env \<Rightarrow> string \<Rightarrow> state \<Rightarrow> (error + unit) \<times> state" where
  "initialize env liAtCookie s =
     (let s1 = s\<lparr>trace := trace s @ [Launch, NewContext, AddCookie liAtCookie, NewPage]\<rparr>;
          s2 = goto (home env) blank_page s1
      in if not_object (isLoggedIn env s2) then
           (case takeScreenshot env AuthFailedShot s2 of
              (Inl e, s3) \<Rightarrow> (Inl e, s3)
            | (Inr u, s3) \<Rightarrow> (Inl AuthenticationFailed, s3))
         else takeScreenshot env HomePage s2)"

text \<open>
  \<open>close\<close>: a page made by \<open>initialize\<close> belongs to a context of a launched browser, so
  \<open>context().browser()\<close> is there. The call \<open>browser.close()\<close> is awaited with no \<open>try\<close>
  around it: when it rejects, the method is left at once and \<open>_page\<close> keeps the handle.
\<close>

definition close :: "env \<Rightarrow> state \<Rightarrow> (error + unit) \<times> state" where
  "close env s =
     (case page s of
        None \<Rightarrow> (Inr (), s)
      | Some p \<Rightarrow>
          let s1 = s\<lparr>trace := trace s @ [BrowserClose]\<rparr>
          in if close_fails env then (Inl CloseFailed, s1)
             else (Inr (), s1\<lparr>page := None\<rparr>))"

section \<open>\<open>_loadJobs\<close>: convergence detection under the retry policy\<close>

record load_result =
  success :: bool
  totalJobs :: "nat option"
  failure :: "error option"

text \<open>
  The \<open>while (true)\<close> loop of one attempt. \<open>count\<close> is the size read last, \<open>i\<close> the number
  of the next reading. Each round scrolls the last item into view, waits 200 ms and
  reads the size again; the loop is left when the size has not changed. A list that
  grows at every reading keeps the loop running: the value is then \<open>None\<close>.
\<close>

partial_function (option) scroll_until_stable ::
    "(nat \<Rightarrow> error + nat) \<Rightarrow> nat \<Rightarrow> nat \<Rightarrow> (error + load_result) option" where
  "scroll_until_stable poll count i =
     (case poll i of
        Inl e \<Rightarrow> Some (Inl e)
      | Inr currentCount \<Rightarrow>
          if currentCount = count
          then Some (Inr \<lparr>success = True, totalJobs = Some count, failure = None\<rparr>)
          else scroll_until_stable poll currentCount (Suc i))"

declare scroll_until_stable.simps [code]

text \<open>
  The function handed to \<open>retry\<close>. The waits for the skeletons are gathered with
  \<open>Promise.allSettled\<close>, which never rejects, so they do not show in the result.
\<close>

definition load_attempt :: "page_handle option \<Rightarrow> (nat \<Rightarrow> error + nat) \<Rightarrow> (error + load_result) option" where
  "load_attempt pg poll =
     (case pg of
        None \<Rightarrow> Some (Inl PageUnavailable)
      | Some p \<Rightarrow>
          (case poll 0 of
             Inl e \<Rightarrow> Some (Inl e)
           | Inr count \<Rightarrow> scroll_until_stable poll count 1))"

record retry_config =
  maxAttempts :: nat
  delayMs :: nat
  timeout :: nat

text \<open>
  Modelled from the spec: \<open>retry\<close> of \<open>./utils\<close> is not among the sources. The
  specification (4.1) says: the operation is run up to \<open>maxAttempts\<close> times; any failure
  it signals, an exception or an explicit failure result, is retried, a success is not;
  between attempts \<open>delayMs\<close> is waited; when the attempts are used up the last failure
  is surfaced as \<open>RetryExhausted\<close>; the whole call, all attempts together, is bounded by
  \<open>timeout\<close>, and when that is exceeded the call fails with \<open>Timeout\<close> whatever attempts
  remain. A failure is surfaced as a result with \<open>success = False\<close>, which is what
  \<open>searchJobs\<close> tests.

  The operation takes the number of the attempt, starting at 0, and answers with its
  outcome (\<open>None\<close> when it never returns) and the milliseconds it took. \<open>run_attempts\<close>
  is the retry loop without the bound: it yields the result and the time at which it is
  reached, counted from the start of the call, or \<open>None\<close> when an attempt never returns.
\<close>

definition failed :: "error \<Rightarrow> load_result" where
  "failed e = \<lparr>success = False, totalJobs = None, failure = Some e\<rparr>"

fun run_attempts ::
    "nat \<Rightarrow> nat \<Rightarrow> nat \<Rightarrow> nat \<Rightarrow> (nat \<Rightarrow> (error + load_result) option \<times> nat)
      \<Rightarrow> (load_result \<times> nat) option" where
  "run_attempts 0 a now delay operation = Some (failed RetryExhausted, now)"
| "run_attempts (Suc n) a now delay operation =
     (case operation a of
        (None, ms) \<Rightarrow> None
      | (Some (Inr r), ms) \<Rightarrow>
          if success r then Some (r, now + ms)
          else if n = 0 then Some (failed RetryExhausted, now + ms)
          else run_attempts n (Suc a) (now + ms + delay) delay operation
      | (Some (Inl e), ms) \<Rightarrow>
          if n = 0 then Some (failed RetryExhausted, now + ms)
          else run_attempts n (Suc a) (now + ms + delay) delay operation)"

definition retry ::
    "(nat \<Rightarrow> (error + load_result) option \<times> nat) \<Rightarrow> retry_config \<Rightarrow> load_result" where
  "retry operation config =
     (case run_attempts (maxAttempts config) 0 0 (delayMs config) operation of
        None \<Rightarrow> failed Timeout
      | Some (r, finished) \<Rightarrow> if timeout config < finished then failed Timeout else r)"

definition loadJobs_config :: retry_config where
  "loadJobs_config = \<lparr>maxAttempts = 3, delayMs = 300, timeout = 30000\<rparr>"

definition loadJobs :: "env \<Rightarrow> nat \<Rightarrow> state \<Rightarrow> load_result \<times> state" where
  "loadJobs env c s =
     (retry (\<lambda>a. (load_attempt (page s) (polls env c a), attempt_ms env c a)) loadJobs_config,
      s\<lparr>trace := trace s @ [LoadJobs]\<rparr>)"

section \<open>\<open>searchJobs\<close>\<close>

text \<open>
  What a call of \<open>searchJobs\<close> hands back: the array of a \<open>return\<close> statement, or
  \<open>undefined\<close> when the body ends without one.
\<close>

datatype returned = Undefined | Jobs "job list"

text \<open>
  The search URL in parsed form: \<open>encodeURIComponent\<close> escapes exactly what parsing the
  query undoes, so the pairs hold \<open>keywords\<close> and \<open>location\<close> themselves.
\<close>

definition search_url :: "env \<Rightarrow> string \<Rightarrow> string \<Rightarrow> url" where
  "search_url env keywords location =
     \<lparr>base = jobsSearch env, query = [(''keywords'', keywords), (''location'', location)]\<rparr>"

text \<open>
  The loop \<open>while (processedJobs < limit)\<close>, with \<open>c\<close> the number of the cycle; \<open>limit\<close>
  and \<open>processedJobs\<close> are integers. After the loop the method logs the extractor's cache
  and ends without a \<open>return\<close>. The loop has no bound of its own: with empty batches it
  runs for ever, and the value is \<open>None\<close>.
\<close>

partial_function (option) search_loop ::
    "env \<Rightarrow> int \<Rightarrow> nat \<Rightarrow> int \<Rightarrow> state \<Rightarrow> ((error + returned) \<times> state) option" where
  "search_loop env limit c processedJobs s =
     (if processedJobs < limit then
        (case loadJobs env c s of
           (r, s1) \<Rightarrow>
             if \<not> success r then
               (case takeScreenshot env NoJobsFound s1 of
                  (Inl e, s2) \<Rightarrow> Some (Inl e, s2)
                | (Inr u, s2) \<Rightarrow> Some (Inr (Jobs []), s2))
             else
               let res = batches env c;
                   s2 = s1\<lparr>trace := trace s1 @ [Extract]\<rparr>;
                   processedJobs' = processedJobs + int (length res)
               in if processedJobs' \<ge> limit then
                    (case takeScreenshot env LimitReached s2 of
                       (Inl e, s3) \<Rightarrow> Some (Inl e, s3)
                     | (Inr u, s3) \<Rightarrow> Some (Inr Undefined, s3))
                  else
                    (case paginate 25 s2 of
                       (Inl e, s3) \<Rightarrow> Some (Inl e, s3)
                     | (Inr u, s3) \<Rightarrow> search_loop env limit (Suc c) processedJobs' s3))
      else Some (Inr Undefined, s))"

declare search_loop.simps [code]

definition searchJobs ::
    "env \<Rightarrow> string \<Rightarrow> string \<Rightarrow> int \<Rightarrow> state \<Rightarrow> ((error + returned) \<times> state) option" where
  "searchJobs env keywords location limit s =
     (case page s of
        None \<Rightarrow> Some (Inl NotInitialized, s)
      | Some p \<Rightarrow>
          (case takeScreenshot env SearchPage (goto (search_url env keywords location) p s) of
             (Inl e, s2) \<Rightarrow> Some (Inl e, s2)
           | (Inr u, s2) \<Rightarrow> search_loop env limit 0 0 s2))"

section \<open>Concrete inputs\<close>

text \<open>
  A site on which every capture succeeds, the list shows 0, 1, 2 and then 2 items at the
  successive readings of every attempt, every attempt takes a second, every extraction
  yields ten records and the browser closes without complaint.
\<close>

definition demo_env :: env where
  "demo_env =
     \<lparr>home = \<lparr>base = ''https://www.linkedin.com/feed/'', query = []\<rparr>,
      jobsSearch = ''https://www.linkedin.com/jobs/search'',
      marker_visible = True,
      shot_fails = (\<lambda>n. False),
      polls = (\<lambda>c a i. Inr (min i 2)),
      attempt_ms = (\<lambda>c a. 1000),
      batches = (\<lambda>c. replicate 10 ''job''),
      close_fails = False\<rparr>"

text \<open>The scraper after \<open>initialize\<close> on that site.\<close>

definition home_state :: state where
  "home_state = snd (initialize demo_env ''cookie'' new_scraper)"

text \<open>The result of an attempt that has seen the list settle at \<open>n\<close> items.\<close>

definition converged :: "nat \<Rightarrow> load_result" where
  "converged n = \<lparr>success = True, totalJobs = Some n, failure = None\<rparr>"

text \<open>The scraper on a results page whose \<open>start\<close> parameter is not a number.\<close>

definition malformed_state :: state where
  "malformed_state =
     home_state\<lparr>page := Some \<lparr>current =
        \<lparr>base = ''https://www.linkedin.com/jobs/search'',
         query = [(''keywords'', ''dev''), (''location'', ''Athens''), (''start'', ''abc'')]\<rparr>\<rparr>\<rparr>"

text \<open>The search URL with a \<open>start\<close> parameter appended.\<close>

definition with_start :: "env \<Rightarrow> string \<Rightarrow> string \<Rightarrow> string \<Rightarrow> url" where
  "with_start env keywords location n =
     \<lparr>base = jobsSearch env,
      query = [(''keywords'', keywords), (''location'', location), (''start'', n)]\<rparr>"

text \<open>
  Three more sites: on the first the page is detached at the third reading of the first
  attempt of every pass; on the second every page operation rejects; on the third the
  list grows at every reading.
\<close>

definition flaky_env :: env where
  "flaky_env =
     demo_env\<lparr>polls := (\<lambda>c a i. if a = 0 \<and> 2 \<le> i then Inl PageError else Inr (min i 2))\<rparr>"

definition detached_env :: env where
  "detached_env = demo_env\<lparr>polls := (\<lambda>c a i. Inl PageError)\<rparr>"

definition growing_env :: env where
  "growing_env = demo_env\<lparr>polls := (\<lambda>c a i. Inr i)\<rparr>"

text \<open>
  A site that agrees with \<open>flaky_env\<close> on the first three attempts of every pass, the
  demo site with the capture numbered \<open>n\<close> rejecting, and the site where every page
  operation rejects with the capture numbered 3 rejecting as well.
\<close>

definition late_env :: env where
  "late_env = flaky_env\<lparr>polls := (\<lambda>c a i. if 3 \<le> a then Inr 0 else polls flaky_env c a i)\<rparr>"

definition broken_capture_env :: "nat \<Rightarrow> env" where
  "broken_capture_env n = demo_env\<lparr>shot_fails := (\<lambda>k. k = n)\<rparr>"

definition detached_broken_env :: env where
  "detached_broken_env = detached_env\<lparr>shot_fails := (\<lambda>k. k = 3)\<rparr>"

text \<open>The demo site with a browser that refuses to close.\<close>

definition stuck_env :: env where
  "stuck_env = demo_env\<lparr>close_fails := True\<rparr>"

text \<open>The site \<open>flaky_env\<close> with every attempt taking fifteen seconds.\<close>

definition slow_env :: env where
  "slow_env = flaky_env\<lparr>attempt_ms := (\<lambda>c a. 15000)\<rparr>"

text \<open>
  The URL of results page \<open>c\<close> of a search (page 0 is the search URL, page \<open>c\<close> has
  \<open>start\<close> at \<open>25 * c\<close>), the calls of a cycle that ends with a pagination, and the least
  number of batches of ten that reach a limit.
\<close>

definition page_url :: "env \<Rightarrow> string \<Rightarrow> string \<Rightarrow> nat \<Rightarrow> url" where
  "page_url env keywords location c =
     (if c = 0 then search_url env keywords location
      else with_start env keywords location (nat_to_string (25 * c)))"

definition cycle_events :: "env \<Rightarrow> string \<Rightarrow> string \<Rightarrow> nat \<Rightarrow> event list" where
  "cycle_events env keywords location c =
     [LoadJobs, Extract, Goto (page_url env keywords location (Suc c))]"

definition cycles_needed :: "int \<Rightarrow> nat" where
  "cycles_needed limit = nat ((limit + 9) div 10)"

section \<open>Basic facts\<close>

lemma page_goto [simp]: "page (goto u p s) = Some (p\<lparr>current := u\<rparr>)"
  by (simp add: goto_def)

lemma trace_goto [simp]: "trace (goto u p s) = trace s @ [Goto u]"
  by (simp add: goto_def)

lemma screenshotCount_goto [simp]: "screenshotCount (goto u p s) = screenshotCount s"
  by (simp add: goto_def)

lemma snd_loadJobs [simp]: "snd (loadJobs env c s) = s\<lparr>trace := trace s @ [LoadJobs]\<rparr>"
  by (simp add: loadJobs_def)

lemma home_state_eq:
  "home_state =
     \<lparr>page = Some \<lparr>current = home demo_env\<rparr>, screenshotCount = 2,
      trace = [Launch, NewContext, AddCookie ''cookie'', NewPage, Goto (home demo_env),
               Capture 1 HomePage]\<rparr>"
  by (simp add: home_state_def initialize_def isLoggedIn_def demo_env_def new_scraper_def
      Let_def takeScreenshot_def goto_def blank_page_def)

section \<open>Authentication\<close>

text \<open>
  Whatever the marker shows, \<open>initialize\<close> never fails with \<open>AuthenticationFailed\<close>: the test
  \<open>!this._isLoggedIn()\<close> negates the promise, so the branch that throws is never taken.
\<close>

lemma initialize_not_AuthenticationFailed:
  "fst (initialize env liAtCookie s) \<noteq> Inl AuthenticationFailed"
  by (simp add: initialize_def isLoggedIn_def Let_def takeScreenshot_def)

text \<open>
  Claim C1 says that \<open>initialize\<close> with a cookie of no valid session (the logged-in marker
  is not visible) fails with \<open>AuthenticationFailed\<close> after a diagnostic capture. On the
  site where the marker is not visible, the code instead completes as a success: it takes
  the "Home page" capture and returns, with no "Authentication failed" capture.
\<close>

theorem initialize_invalid_cookie_succeeds:
  "initialize (demo_env\<lparr>marker_visible := False\<rparr>) ''expired'' new_scraper =
     (Inr (),
      \<lparr>page = Some \<lparr>current = home demo_env\<rparr>, screenshotCount = 2,
       trace = [Launch, NewContext, AddCookie ''expired'', NewPage, Goto (home demo_env),
                Capture 1 HomePage]\<rparr>)"
  by (simp add: initialize_def isLoggedIn_def demo_env_def new_scraper_def Let_def
      takeScreenshot_def goto_def blank_page_def)

section \<open>Calls without a session\<close>

text \<open>
  Claim C6: \<open>searchJobs\<close> called while the page handle is \<open>null\<close> fails with
  \<open>NotInitialized\<close> and leaves the state as it was: nothing is added to the trace (no
  navigation, no extraction, no capture) and the counter is unchanged.
\<close>

theorem searchJobs_before_initialize:
  "page s = None \<Longrightarrow> searchJobs env keywords location limit s = Some (Inl NotInitialized, s)"
  by (simp add: searchJobs_def)

theorem searchJobs_before_initialize_witness:
  "page new_scraper = None
   \<and> searchJobs demo_env ''dev'' ''Athens'' 25 new_scraper = Some (Inl NotInitialized, new_scraper)"
  using searchJobs_before_initialize [of new_scraper demo_env "''dev''" "''Athens''" 25]
  by (simp add: new_scraper_def)

section \<open>A limit that is zero or negative\<close>

text \<open>
  Claim C10: with a session and \<open>limit \<le> 0\<close>, \<open>searchJobs\<close> navigates to the search URL and
  takes the one "Search jobs page" capture; the loop body is never entered, so the trace
  gains no convergence pass, no extraction and no pagination. The call returns
  \<open>undefined\<close>, or fails with the capture's error when that capture rejects.
\<close>

theorem searchJobs_nonpositive_limit:
  assumes "page s = Some p" and "limit \<le> 0"
  shows "\<exists>r s'. searchJobs env keywords location limit s = Some (r, s')
     \<and> trace s' = trace s @ [Goto (search_url env keywords location),
                             Capture (screenshotCount s) SearchPage]
     \<and> r = (if shot_fails env (screenshotCount s) then Inl CaptureFailed else Inr Undefined)"
  using assms
  by (simp add: searchJobs_def takeScreenshot_def Let_def search_loop.simps [of env limit 0 0])

theorem searchJobs_nonpositive_limit_witness:
  "page home_state = Some \<lparr>current = home demo_env\<rparr> \<and> (0::int) \<le> 0
   \<and> (\<exists>r s'. searchJobs demo_env ''dev'' ''Athens'' 0 home_state = Some (r, s')
        \<and> trace s' = trace home_state @ [Goto (search_url demo_env ''dev'' ''Athens''),
                                         Capture 2 SearchPage]
        \<and> r = Inr Undefined)"
proof -
  have pg: "page home_state = Some \<lparr>current = home demo_env\<rparr>"
    by (simp add: home_state_eq)
  have le: "(0::int) \<le> 0"
    by simp
  have cnt: "screenshotCount home_state = 2" and ok: "\<not> shot_fails demo_env 2"
    by (simp_all add: home_state_eq demo_env_def)
  from searchJobs_nonpositive_limit [OF pg le, of demo_env "''dev''" "''Athens''"] cnt ok pg le
  show ?thesis by simp
qed

section \<open>Convergence detection\<close>

lemma scroll_stops_at_first_repeat:
  "\<lbrakk>sizes (Suc (k + n)) = sizes (k + n); \<forall>j<n. sizes (Suc (k + j)) \<noteq> sizes (k + j)\<rbrakk>
   \<Longrightarrow> scroll_until_stable (\<lambda>i. Inr (sizes i)) (sizes k) (Suc k) = Some (Inr (converged (sizes (k + n))))"
proof (induction n arbitrary: k)
  case 0
  then show ?case
    by (subst scroll_until_stable.simps) (simp add: converged_def)
next
  case (Suc n)
  have grow: "sizes (Suc k) \<noteq> sizes k"
    using Suc.prems(2) [rule_format, of 0] by simp
  have later: "\<forall>j<n. sizes (Suc (Suc k + j)) \<noteq> sizes (Suc k + j)"
  proof (intro allI impI)
    fix j assume "j < n"
    then show "sizes (Suc (Suc k + j)) \<noteq> sizes (Suc k + j)"
      using Suc.prems(2) [rule_format, of "Suc j"] by simp
  qed
  have "scroll_until_stable (\<lambda>i. Inr (sizes i)) (sizes (Suc k)) (Suc (Suc k)) =
          Some (Inr (converged (sizes (Suc k + n))))"
    using Suc.IH [of "Suc k"] Suc.prems(1) later by simp
  then show ?case
    using grow by (subst scroll_until_stable.simps) simp
qed

lemma scroll_growing_never_returns:
  assumes ret: "scroll_until_stable poll count i = Some y"
  shows "\<forall>k. poll = (\<lambda>i. Inr (sizes i)) \<longrightarrow> i = Suc k \<longrightarrow> count = sizes k
            \<longrightarrow> (\<exists>j\<ge>k. sizes (Suc j) = sizes j)"
proof (rule scroll_until_stable.raw_induct [OF _ ret])
  fix rec :: "(nat \<Rightarrow> error + nat) \<Rightarrow> nat \<Rightarrow> nat \<Rightarrow> (error + load_result) option"
  fix poll count i y
  assume IH: "\<And>poll count i y. rec poll count i = Some y \<Longrightarrow>
      \<forall>k. poll = (\<lambda>i. Inr (sizes i)) \<longrightarrow> i = Suc k \<longrightarrow> count = sizes k
            \<longrightarrow> (\<exists>j\<ge>k. sizes (Suc j) = sizes j)"
  assume body: "(case poll i of Inl e \<Rightarrow> Some (Inl e)
        | Inr currentCount \<Rightarrow>
            if currentCount = count
            then Some (Inr \<lparr>success = True, totalJobs = Some count, failure = None\<rparr>)
            else rec poll currentCount (Suc i)) = Some y"
  show "\<forall>k. poll = (\<lambda>i. Inr (sizes i)) \<longrightarrow> i = Suc k \<longrightarrow> count = sizes k
            \<longrightarrow> (\<exists>j\<ge>k. sizes (Suc j) = sizes j)"
  proof (intro allI impI)
    fix k
    assume p: "poll = (\<lambda>i. Inr (sizes i))" and i: "i = Suc k" and c: "count = sizes k"
    show "\<exists>j\<ge>k. sizes (Suc j) = sizes j"
    proof (cases "sizes (Suc k) = sizes k")
      case True
      then show ?thesis by blast
    next
      case False
      with body p i c have "rec poll (sizes (Suc k)) (Suc (Suc k)) = Some y"
        by simp
      from IH [OF this] p obtain j where "j \<ge> Suc k" "sizes (Suc j) = sizes j"
        by blast
      then show ?thesis using Suc_leD by blast
    qed
  qed
qed

lemma scroll_result_success:
  assumes ret: "scroll_until_stable poll count i = Some y"
  shows "\<forall>r. y = Inr r \<longrightarrow> success r"
proof (rule scroll_until_stable.raw_induct [OF _ ret])
  fix rec :: "(nat \<Rightarrow> error + nat) \<Rightarrow> nat \<Rightarrow> nat \<Rightarrow> (error + load_result) option"
  fix poll count i y
  assume IH: "\<And>poll count i y. rec poll count i = Some y \<Longrightarrow> \<forall>r. y = Inr r \<longrightarrow> success r"
  assume body: "(case poll i of Inl e \<Rightarrow> Some (Inl e)
        | Inr currentCount \<Rightarrow>
            if currentCount = count
            then Some (Inr \<lparr>success = True, totalJobs = Some count, failure = None\<rparr>)
            else rec poll currentCount (Suc i)) = Some y"
  show "\<forall>r. y = Inr r \<longrightarrow> success r"
  proof (cases "poll i")
    case (Inl e)
    with body show ?thesis by auto
  next
    case (Inr cur)
    show ?thesis
    proof (cases "cur = count")
      case True
      with body Inr show ?thesis by auto
    next
      case False
      with body Inr have "rec poll cur (Suc i) = Some y" by simp
      from IH [OF this] show ?thesis .
    qed
  qed
qed

lemma load_attempt_success: "load_attempt pg poll = Some (Inr r) \<Longrightarrow> success r"
  using scroll_result_success [of poll _ 1 "Inr r"]
  by (auto simp: load_attempt_def split: option.splits sum.splits)

text \<open>
  Claim C5: when the successive readings of the list size are \<open>sizes 0\<close>, \<open>sizes 1\<close>, ...,
  an attempt returns at the first reading that equals the one before it, with
  \<open>success = true\<close> and \<open>totalJobs\<close> that size; on a list that differs at every two
  consecutive readings it never returns.
\<close>

theorem convergence_first_stable_poll:
  "(sizes (Suc n) = sizes n \<and> (\<forall>i<n. sizes (Suc i) \<noteq> sizes i) \<longrightarrow>
       load_attempt (Some pg) (\<lambda>i. Inr (sizes i)) =
         Some (Inr \<lparr>success = True, totalJobs = Some (sizes n), failure = None\<rparr>))
   \<and> ((\<forall>i. sizes (Suc i) \<noteq> sizes i) \<longrightarrow> load_attempt (Some pg) (\<lambda>i. Inr (sizes i)) = None)"
proof (intro conjI impI)
  assume h: "sizes (Suc n) = sizes n \<and> (\<forall>i<n. sizes (Suc i) \<noteq> sizes i)"
  then show "load_attempt (Some pg) (\<lambda>i. Inr (sizes i)) =
         Some (Inr \<lparr>success = True, totalJobs = Some (sizes n), failure = None\<rparr>)"
    using scroll_stops_at_first_repeat [of sizes 0 n]
    by (simp add: load_attempt_def converged_def)
next
  assume grow: "\<forall>i. sizes (Suc i) \<noteq> sizes i"
  show "load_attempt (Some pg) (\<lambda>i. Inr (sizes i)) = None"
  proof (rule ccontr)
    assume "load_attempt (Some pg) (\<lambda>i. Inr (sizes i)) \<noteq> None"
    then obtain y where "scroll_until_stable (\<lambda>i. Inr (sizes i)) (sizes 0) (Suc 0) = Some y"
      by (auto simp: load_attempt_def)
    from scroll_growing_never_returns [OF this, of sizes] grow show False
      by blast
  qed
qed

theorem convergence_first_stable_poll_witness:
  "min (Suc 2) 2 = min 2 (2::nat) \<and> min 1 2 \<noteq> min 0 (2::nat) \<and> min 2 2 \<noteq> min 1 (2::nat)
   \<and> load_attempt (Some blank_page) (\<lambda>i. Inr (min i 2)) =
         Some (Inr \<lparr>success = True, totalJobs = Some 2, failure = None\<rparr>)
   \<and> (\<forall>i::nat. Suc i \<noteq> i)
   \<and> load_attempt (Some blank_page) (\<lambda>i. Inr i) = None"
proof -
  have h1: "min (Suc 2) 2 = min 2 (2::nat) \<and> (\<forall>i<2. min (Suc i) 2 \<noteq> min i (2::nat))"
    by auto
  have h2: "\<forall>i::nat. Suc i \<noteq> i"
    by simp
  have "load_attempt (Some blank_page) (\<lambda>i. Inr (min i 2)) =
         Some (Inr \<lparr>success = True, totalJobs = Some (min 2 2), failure = None\<rparr>)"
    using convergence_first_stable_poll [of "\<lambda>i. min i 2" 2 blank_page, THEN conjunct1] h1 by (rule mp)
  then have r1: "load_attempt (Some blank_page) (\<lambda>i. Inr (min i 2)) =
         Some (Inr \<lparr>success = True, totalJobs = Some 2, failure = None\<rparr>)"
    by simp
  have r2: "load_attempt (Some blank_page) (\<lambda>i. Inr i) = None"
    using convergence_first_stable_poll [of "\<lambda>i. i" 0 blank_page, THEN conjunct2] h2 by (rule mp)
  from h2 r1 r2 show ?thesis by simp
qed

section \<open>Pagination\<close>

lemma parseInt_0: "parseInt ''0'' = Some 0"
  by code_simp

lemma parseInt_25: "parseInt ''25'' = Some 25"
  by code_simp

lemma parseInt_abc: "parseInt ''abc'' = None"
  by code_simp

lemma number_25: "number_to_string (Some 25) = ''25''"
  by code_simp

lemma number_50: "number_to_string (Some 50) = ''50''"
  by code_simp

lemma get_after_set: "searchParams_get (searchParams_set ps k v) k = Some v"
  by (induction ps) auto

lemma next_url_absent:
  "searchParams_get (query u) ''start'' = None \<Longrightarrow>
   searchParams_get (query (next_url 25 u)) ''start'' = Some ''25''"
  by (simp add: next_url_def start_or_zero_def parseInt_0 number_add_def number_25 get_after_set)

lemma next_url_empty:
  "searchParams_get (query u) ''start'' = Some [] \<Longrightarrow>
   searchParams_get (query (next_url 25 u)) ''start'' = Some ''25''"
  by (simp add: next_url_def start_or_zero_def parseInt_0 number_add_def number_25 get_after_set)

lemma next_url_0:
  "searchParams_get (query u) ''start'' = Some ''0'' \<Longrightarrow>
   searchParams_get (query (next_url 25 u)) ''start'' = Some ''25''"
  by (simp add: next_url_def start_or_zero_def parseInt_0 number_add_def number_25 get_after_set)

lemma next_url_25:
  "searchParams_get (query u) ''start'' = Some ''25'' \<Longrightarrow>
   searchParams_get (query (next_url 25 u)) ''start'' = Some ''50''"
  by (simp add: next_url_def start_or_zero_def parseInt_25 number_add_def number_50 get_after_set)

text \<open>
  Claim C3 says that advancing turns \<open>start=0\<close> into \<open>start=25\<close> and \<open>start=25\<close> into
  \<open>start=50\<close>, and that an absent or malformed \<open>start\<close> counts as 0. The lemmas above
  give the first three; for a \<open>start\<close> with no leading integer the code does otherwise:
  on a page whose URL has \<open>start=abc\<close>, \<open>parseInt\<close> yields \<open>NaN\<close>, and \<open>_paginate\<close>
  navigates to a URL with \<open>start=NaN\<close>, not \<open>start=25\<close>.
\<close>

theorem paginate_malformed_start:
  "paginate 25 malformed_state =
     (Inr (),
      malformed_state
        \<lparr>page := Some \<lparr>current =
            \<lparr>base = ''https://www.linkedin.com/jobs/search'',
             query = [(''keywords'', ''dev''), (''location'', ''Athens''), (''start'', ''NaN'')]\<rparr>\<rparr>,
         trace := trace home_state @
           [Goto \<lparr>base = ''https://www.linkedin.com/jobs/search'',
                  query = [(''keywords'', ''dev''), (''location'', ''Athens''), (''start'', ''NaN'')]\<rparr>]\<rparr>)"
  by (simp add: paginate_def malformed_state_def next_url_def start_or_zero_def goto_def
      parseInt_abc number_add_def number_to_string_def)

section \<open>Attempts and passes on the concrete sites\<close>

lemma attempt_demo: "load_attempt (Some p) (\<lambda>i. Inr (min i 2)) = Some (Inr (converged 2))"
  using scroll_stops_at_first_repeat [of "\<lambda>i. min i 2" 0 2]
  by (simp add: load_attempt_def numeral_2_eq_2)

lemma attempt_flaky:
  "load_attempt (Some p) (\<lambda>i. if 2 \<le> i then Inl PageError else Inr (min i 2)) = Some (Inl PageError)"
  by (simp add: load_attempt_def scroll_until_stable.simps [of _ _ "Suc 0"]
      scroll_until_stable.simps [of _ _ "Suc (Suc 0)"] numeral_2_eq_2)

lemma attempt_detached: "load_attempt (Some p) (\<lambda>i. Inl PageError) = Some (Inl PageError)"
  by (simp add: load_attempt_def)

lemma attempt_growing: "load_attempt (Some p) (\<lambda>i. Inr i) = None"
proof (rule ccontr)
  assume "load_attempt (Some p) (\<lambda>i. Inr i) \<noteq> None"
  then obtain y where "scroll_until_stable (\<lambda>i. Inr i) 0 (Suc 0) = Some y"
    by (auto simp: load_attempt_def)
  from scroll_growing_never_returns [OF this, where sizes = "\<lambda>i. i", rule_format, of 0]
  show False
    by simp
qed

lemma stable_loads:
  "\<lbrakk>polls env c 0 = (\<lambda>i. Inr (min i 2)); attempt_ms env c 0 \<le> 30000; page st \<noteq> None\<rbrakk>
   \<Longrightarrow> fst (loadJobs env c st) = converged 2"
  by (auto simp: loadJobs_def loadJobs_config_def retry_def attempt_demo
      numeral_3_eq_3 converged_def)

lemma demo_loads: "page st \<noteq> None \<Longrightarrow> fst (loadJobs demo_env c st) = converged 2"
  by (simp add: stable_loads demo_env_def)

lemma detached_loads:
  "\<lbrakk>polls env c = (\<lambda>a i. Inl PageError); attempt_ms env c = (\<lambda>a. 1000); page st \<noteq> None\<rbrakk>
   \<Longrightarrow> fst (loadJobs env c st) = failed RetryExhausted"
  by (auto simp: loadJobs_def loadJobs_config_def retry_def attempt_detached numeral_3_eq_3)

section \<open>The search loop\<close>

lemma next_url_search:
  "next_url 25 (search_url env keywords location) = with_start env keywords location ''25''"
  by (simp add: next_url_def search_url_def with_start_def start_or_zero_def parseInt_0
      number_add_def number_25)

lemma next_url_with_start_25:
  "next_url 25 (with_start env keywords location ''25'') = with_start env keywords location ''50''"
  by (simp add: next_url_def with_start_def start_or_zero_def parseInt_25
      number_add_def number_50)

lemma search_loop_load_failed:
  assumes "processedJobs < limit" and "\<not> success (fst (loadJobs env c s))"
  shows "search_loop env limit c processedJobs s =
     (case takeScreenshot env NoJobsFound (s\<lparr>trace := trace s @ [LoadJobs]\<rparr>) of
        (Inl e, s2) \<Rightarrow> Some (Inl e, s2)
      | (Inr u, s2) \<Rightarrow> Some (Inr (Jobs []), s2))"
  using assms by (subst search_loop.simps) (simp add: case_prod_unfold)

lemma search_loop_quota:
  assumes "processedJobs < limit" and "success (fst (loadJobs env c s))"
    and "limit \<le> processedJobs + int (length (batches env c))"
  shows "search_loop env limit c processedJobs s =
     (case takeScreenshot env LimitReached (s\<lparr>trace := trace s @ [LoadJobs, Extract]\<rparr>) of
        (Inl e, s3) \<Rightarrow> Some (Inl e, s3)
      | (Inr u, s3) \<Rightarrow> Some (Inr Undefined, s3))"
  using assms by (subst search_loop.simps) (simp add: case_prod_unfold Let_def)

lemma search_loop_continue:
  assumes "processedJobs < limit" and "success (fst (loadJobs env c s))"
    and "processedJobs + int (length (batches env c)) < limit"
    and "page s = Some p"
  shows "search_loop env limit c processedJobs s =
     search_loop env limit (Suc c) (processedJobs + int (length (batches env c)))
       (goto (next_url 25 (current p)) p (s\<lparr>trace := trace s @ [LoadJobs, Extract]\<rparr>))"
  using assms by (subst search_loop.simps) (simp add: case_prod_unfold Let_def paginate_def)

section \<open>Printing and parsing the offset\<close>

lemma digit_char: "n < 10 \<Longrightarrow> is_digit (char_of (48 + n)) \<and> digit_value (char_of (48 + n)) = n"
  by (simp add: is_digit_def digit_value_def)

lemma digit_no_sign: "is_digit c \<Longrightarrow> c \<noteq> CHR ''-'' \<and> c \<noteq> CHR ''+''"
  by (auto simp: is_digit_def)

lemma space_heads: "w \<in> set space_sequences \<Longrightarrow> w \<noteq> [] \<and> \<not> is_digit (hd w)"
  by (auto simp: space_sequences_def is_digit_def)

lemma digit_no_space:
  assumes "is_digit c"
  shows "leading_space (c # cs) = 0"
proof -
  have "\<not> (\<exists>w. w \<in> set space_sequences \<and> take (length w) (c # cs) = w)"
  proof
    assume "\<exists>w. w \<in> set space_sequences \<and> take (length w) (c # cs) = w"
    then obtain w where w: "w \<in> set space_sequences" and t: "take (length w) (c # cs) = w"
      by blast
    from space_heads [OF w] obtain x xs where "w = x # xs" and "\<not> is_digit x"
      by (cases w) auto
    with t assms show False by simp
  qed
  then have "find (\<lambda>w. take (length w) (c # cs) = w) space_sequences = None"
    by (simp add: find_None_iff)
  then show ?thesis
    by (simp add: leading_space_def)
qed

lemma nat_to_string_digits: "c \<in> set (nat_to_string n) \<Longrightarrow> is_digit c"
proof (induction n rule: nat_to_string.induct)
  case (1 n)
  show ?case
  proof (cases "n < 10")
    case True
    with "1.prems" show ?thesis
      by (subst (asm) nat_to_string.simps) (simp add: digit_char)
  next
    case False
    from "1.prems" have "c \<in> set (nat_to_string (n div 10)) \<or> c = char_of (48 + n mod 10)"
      using False by (subst (asm) nat_to_string.simps) auto
    then show ?thesis
      using "1.IH" [OF False] digit_char [of "n mod 10"] by auto
  qed
qed

lemma nat_to_string_nonempty: "nat_to_string n \<noteq> []"
  by (subst nat_to_string.simps) simp

lemma digits_value_append:
  "\<forall>c\<in>set xs. is_digit c \<Longrightarrow>
   digits_value acc (xs @ ys) = digits_value (digits_value acc xs) ys"
  by (induction xs arbitrary: acc) auto

lemma digits_value_nat_to_string: "digits_value 0 (nat_to_string n) = n"
proof (induction n rule: nat_to_string.induct)
  case (1 n)
  show ?case
  proof (cases "n < 10")
    case True
    then show ?thesis
      by (subst nat_to_string.simps) (simp add: digit_char)
  next
    case False
    have "digits_value 0 (nat_to_string (n div 10) @ [char_of (48 + n mod 10)]) =
            digits_value (n div 10) [char_of (48 + n mod 10)]"
      using digits_value_append [of "nat_to_string (n div 10)" 0] nat_to_string_digits
        "1.IH" [OF False] by simp
    also have "\<dots> = 10 * (n div 10) + n mod 10"
      using digit_char [of "n mod 10"] by simp
    finally show ?thesis
      using False by (subst nat_to_string.simps) simp
  qed
qed

lemma parseInt_nat_to_string: "parseInt (nat_to_string n) = Some (int n)"
proof -
  obtain c cs where str: "nat_to_string n = c # cs"
    using nat_to_string_nonempty [of n] by (cases "nat_to_string n") auto
  then have d: "is_digit c"
    using nat_to_string_digits [of c n] by simp
  have "parse_unsigned (c # cs) = Some n"
    using d digits_value_nat_to_string [of n] str by (simp add: parse_unsigned_def)
  then show ?thesis
    using d digit_no_space [OF d, of cs] digit_no_sign [OF d] str
    by (simp add: parseInt_def)
qed

lemma next_url_page_url:
  "next_url 25 (page_url env keywords location c) = page_url env keywords location (Suc c)"
proof (cases "c = 0")
  case True
  have "nat_to_string 25 = ''25''" by code_simp
  with True show ?thesis
    by (simp add: page_url_def next_url_search)
next
  case False
  have "nat (25 * int c + 25) = 25 + 25 * c" by simp
  with False show ?thesis
    using nat_to_string_nonempty [of "25 * c"]
    by (simp add: page_url_def next_url_def with_start_def start_or_zero_def
        parseInt_nat_to_string number_add_def number_to_string_def)
qed

section \<open>Reaching the quota\<close>

lemma cycles_needed_least:
  "0 < limit \<Longrightarrow>
   0 < cycles_needed limit \<and> limit \<le> 10 * int (cycles_needed limit)
   \<and> 10 * (int (cycles_needed limit) - 1) < limit"
  unfolding cycles_needed_def by auto

lemma search_loop_batches_of_10:
  assumes loads: "\<forall>c<n. \<forall>st. page st \<noteq> None \<longrightarrow> success (fst (loadJobs env c st))"
    and tens: "\<forall>c<n. length (batches env c) = 10"
    and low: "10 * (int n - 1) < limit" and high: "limit \<le> 10 * int n"
  shows "\<lbrakk>m = n - Suc c; c < n; page s = Some p; current p = page_url env kw loc c;
          \<not> shot_fails env (screenshotCount s)\<rbrakk>
     \<Longrightarrow> \<exists>s'. search_loop env limit c (10 * int c) s = Some (Inr Undefined, s')
          \<and> trace s' = trace s @ concat (map (cycle_events env kw loc) [c..<n - 1])
                @ [LoadJobs, Extract, Capture (screenshotCount s) LimitReached]"
proof (induction m arbitrary: c s p)
  case 0
  then have last: "Suc c = n" by simp
  have below: "10 * int c < limit"
    using low last by auto
  have load: "success (fst (loadJobs env c s))"
    using loads "0.prems" by simp
  have reach: "limit \<le> 10 * int c + int (length (batches env c))"
    using high tens last by auto
  have none: "[c..<n - Suc 0] = []"
    using last by auto
  show ?case
    using search_loop_quota [OF below load reach] "0.prems"(5)
    by (simp add: takeScreenshot_def Let_def "0.prems"(3) none)
next
  case (Suc m)
  then have more: "Suc c < n" by simp
  have below: "10 * int c < limit"
    using low more by auto
  have load: "success (fst (loadJobs env c s))"
    using loads Suc.prems by simp
  have ten: "length (batches env c) = 10"
    using tens more by simp
  have short: "10 * int c + int (length (batches env c)) < limit"
    using low more ten by auto
  define s1 where "s1 = goto (next_url 25 (current p)) p (s\<lparr>trace := trace s @ [LoadJobs, Extract]\<rparr>)"
  have step: "search_loop env limit c (10 * int c) s = search_loop env limit (Suc c) (10 * int (Suc c)) s1"
    using search_loop_continue [OF below load short Suc.prems(3)] ten
    by (simp add: s1_def algebra_simps)
  have p1: "page s1 = Some (p\<lparr>current := page_url env kw loc (Suc c)\<rparr>)"
    by (simp add: s1_def Suc.prems(4) next_url_page_url)
  have t1: "trace s1 = trace s @ cycle_events env kw loc c"
    by (simp add: s1_def cycle_events_def Suc.prems(4) next_url_page_url)
  have c1: "screenshotCount s1 = screenshotCount s"
    by (simp add: s1_def)
  have m: "m = n - Suc (Suc c)"
    using Suc.prems(1) by simp
  from Suc.IH [OF m more p1 _ ] Suc.prems(5) c1
  obtain s' where run: "search_loop env limit (Suc c) (10 * int (Suc c)) s1 = Some (Inr Undefined, s')"
    and tr: "trace s' = trace s1 @ concat (map (cycle_events env kw loc) [Suc c..<n - 1])
                @ [LoadJobs, Extract, Capture (screenshotCount s) LimitReached]"
    by auto
  have split: "[c..<n - 1] = c # [Suc c..<n - 1]"
    using more by (simp add: upt_conv_Cons)
  show ?case
    using step run tr t1 split by simp
qed

text \<open>
  Claim C4: for every limit, with convergence passes that succeed and an extractor that
  yields ten records each time, \<open>searchJobs\<close> runs \<open>cycles_needed limit\<close> cycles, the least
  number of batches of ten that reach the limit. Every cycle but the last ends with a
  pagination; the last, after which the count has reached or passed the limit, ends with
  the "Job limit reached" capture in place of a pagination. With \<open>limit = 25\<close> these are
  three extractions and two paginations, to \<open>start=25\<close> and \<open>start=50\<close>; with
  \<open>limit = 10\<close> the first batch meets the limit exactly and nothing is paginated; a limit
  that is not positive gives no cycle at all.
\<close>

theorem searchJobs_quota_batches_of_10:
  assumes pg: "page s = Some p"
    and shot1: "\<not> shot_fails env (screenshotCount s)"
    and shot2: "\<not> shot_fails env (Suc (screenshotCount s))"
    and loads: "\<forall>c<cycles_needed limit. \<forall>st. page st \<noteq> None \<longrightarrow> success (fst (loadJobs env c st))"
    and tens: "\<forall>c<cycles_needed limit. length (batches env c) = 10"
  shows "\<exists>s'. searchJobs env keywords location limit s = Some (Inr Undefined, s')
     \<and> trace s' = trace s @
          [Goto (search_url env keywords location), Capture (screenshotCount s) SearchPage]
          @ (if limit \<le> 0 then []
             else concat (map (cycle_events env keywords location) [0..<cycles_needed limit - 1])
                  @ [LoadJobs, Extract, Capture (Suc (screenshotCount s)) LimitReached])
     \<and> (0 < limit \<longrightarrow> 10 * (int (cycles_needed limit) - 1) < limit
                       \<and> limit \<le> 10 * int (cycles_needed limit))"
proof -
  let ?u = "search_url env keywords location"
  define s0 where "s0 = (goto ?u p s)\<lparr>trace := trace s @ [Goto ?u, Capture (screenshotCount s) SearchPage],
       screenshotCount := Suc (screenshotCount s)\<rparr>"
  have start: "searchJobs env keywords location limit s = search_loop env limit 0 0 s0"
    using pg shot1 by (simp add: searchJobs_def takeScreenshot_def Let_def s0_def goto_def)
  have least: "0 < limit \<longrightarrow> 10 * (int (cycles_needed limit) - 1) < limit
                       \<and> limit \<le> 10 * int (cycles_needed limit)"
    using cycles_needed_least by blast
  have "\<exists>s'. searchJobs env keywords location limit s = Some (Inr Undefined, s')
     \<and> trace s' = trace s @
          [Goto (search_url env keywords location), Capture (screenshotCount s) SearchPage]
          @ (if limit \<le> 0 then []
             else concat (map (cycle_events env keywords location) [0..<cycles_needed limit - 1])
                  @ [LoadJobs, Extract, Capture (Suc (screenshotCount s)) LimitReached])"
  proof (cases "limit \<le> 0")
    case True
    then show ?thesis
      unfolding start by (subst search_loop.simps) (simp add: s0_def)
  next
    case False
    then have pos: "0 < limit" by simp
    note least = cycles_needed_least [OF pos]
    have p0: "page s0 = Some (p\<lparr>current := ?u\<rparr>)"
      by (simp add: s0_def)
    have u0: "current (p\<lparr>current := ?u\<rparr>) = page_url env keywords location 0"
      by (simp add: page_url_def)
    have ok: "\<not> shot_fails env (screenshotCount s0)"
      using shot2 by (simp add: s0_def)
    from search_loop_batches_of_10 [OF loads tens, where limit = limit and c = 0 and s = s0
        and kw = "keywords" and loc = "location", OF _ _ refl _ p0 u0 ok] least
    obtain s' where run: "search_loop env limit 0 0 s0 = Some (Inr Undefined, s')"
      and tr: "trace s' = trace s0 @ concat (map (cycle_events env keywords location) [0..<cycles_needed limit - 1])
                @ [LoadJobs, Extract, Capture (screenshotCount s0) LimitReached]"
      by auto
    show ?thesis
      unfolding start using run tr False by (simp add: s0_def)
  qed
  with least show ?thesis
    by blast
qed

lemma nat_to_string_25: "nat_to_string 25 = ''25''"
  by code_simp

lemma nat_to_string_50: "nat_to_string 50 = ''50''"
  by code_simp

theorem searchJobs_quota_batches_of_10_witness:
  "page home_state = Some \<lparr>current = home demo_env\<rparr>
   \<and> \<not> shot_fails demo_env (screenshotCount home_state)
   \<and> \<not> shot_fails demo_env (Suc (screenshotCount home_state))
   \<and> (\<forall>c p. success (fst (loadJobs demo_env c (home_state\<lparr>page := Some p\<rparr>))))
   \<and> (\<forall>c. length (batches demo_env c) = 10)
   \<and> cycles_needed 25 = 3
   \<and> (\<exists>s'. searchJobs demo_env ''dev'' ''Athens'' 25 home_state = Some (Inr Undefined, s')
        \<and> trace s' = trace home_state @
          [Goto (search_url demo_env ''dev'' ''Athens''), Capture 2 SearchPage,
           LoadJobs, Extract, Goto (with_start demo_env ''dev'' ''Athens'' ''25''),
           LoadJobs, Extract, Goto (with_start demo_env ''dev'' ''Athens'' ''50''),
           LoadJobs, Extract, Capture 3 LimitReached])
   \<and> cycles_needed 10 = 1
   \<and> (\<exists>s'. searchJobs demo_env ''dev'' ''Athens'' 10 home_state = Some (Inr Undefined, s')
        \<and> trace s' = trace home_state @
          [Goto (search_url demo_env ''dev'' ''Athens''), Capture 2 SearchPage,
           LoadJobs, Extract, Capture 3 LimitReached])"
proof -
  have pg: "page home_state = Some \<lparr>current = home demo_env\<rparr>"
    by (simp add: home_state_eq)
  have cnt: "screenshotCount home_state = 2"
    by (simp add: home_state_eq)
  have shot1: "\<not> shot_fails demo_env (screenshotCount home_state)"
    and shot2: "\<not> shot_fails demo_env (Suc (screenshotCount home_state))"
    by (simp_all add: demo_env_def)
  have loads: "\<forall>c<cycles_needed limit. \<forall>st. page st \<noteq> None \<longrightarrow> success (fst (loadJobs demo_env c st))"
    for limit
    by (simp add: demo_loads converged_def)
  have loads': "\<forall>c p. success (fst (loadJobs demo_env c (home_state\<lparr>page := Some p\<rparr>)))"
    by (simp add: demo_loads converged_def)
  have tens: "\<forall>c<cycles_needed limit. length (batches demo_env c) = 10" for limit
    by (simp add: demo_env_def)
  have tens': "\<forall>c. length (batches demo_env c) = 10"
    by (simp add: demo_env_def)
  have n25: "cycles_needed 25 = 3" and n10: "cycles_needed 10 = 1"
    by (simp_all add: cycles_needed_def)
  have upto: "[0..<2] = [0, Suc 0]"
    by (simp add: upt_conv_Cons)
  have u1: "page_url demo_env ''dev'' ''Athens'' (Suc 0) = with_start demo_env ''dev'' ''Athens'' ''25''"
    by (simp add: page_url_def nat_to_string_25)
  have u2: "page_url demo_env ''dev'' ''Athens'' (Suc (Suc 0)) = with_start demo_env ''dev'' ''Athens'' ''50''"
    by (simp add: page_url_def nat_to_string_50)
  from searchJobs_quota_batches_of_10 [of home_state _ demo_env 25 "''dev''" "''Athens''",
      OF pg shot1 shot2 loads tens]
  have run25: "\<exists>s'. searchJobs demo_env ''dev'' ''Athens'' 25 home_state = Some (Inr Undefined, s')
        \<and> trace s' = trace home_state @
          [Goto (search_url demo_env ''dev'' ''Athens''), Capture 2 SearchPage,
           LoadJobs, Extract, Goto (with_start demo_env ''dev'' ''Athens'' ''25''),
           LoadJobs, Extract, Goto (with_start demo_env ''dev'' ''Athens'' ''50''),
           LoadJobs, Extract, Capture 3 LimitReached]"
    by (simp add: cnt n25 upto cycle_events_def u1 u2)
  from searchJobs_quota_batches_of_10 [of home_state _ demo_env 10 "''dev''" "''Athens''",
      OF pg shot1 shot2 loads tens]
  have run10: "\<exists>s'. searchJobs demo_env ''dev'' ''Athens'' 10 home_state = Some (Inr Undefined, s')
        \<and> trace s' = trace home_state @
          [Goto (search_url demo_env ''dev'' ''Athens''), Capture 2 SearchPage,
           LoadJobs, Extract, Capture 3 LimitReached]"
    by (simp add: cnt n10)
  from pg shot1 shot2 loads' tens' n25 run25 n10 run10 show ?thesis
    by blast
qed

text \<open>
  On no input does the search hand back a record: an array it returns is the empty one.
\<close>

lemma search_loop_never_returns_records:
  assumes ret: "search_loop env limit c processedJobs s = Some y"
  shows "\<forall>js. fst y = Inr (Jobs js) \<longrightarrow> js = []"
proof (rule search_loop.raw_induct [OF _ ret])
  fix rec :: "env \<Rightarrow> int \<Rightarrow> nat \<Rightarrow> int \<Rightarrow> state \<Rightarrow> ((error + returned) \<times> state) option"
  fix env limit c processedJobs s y
  assume IH: "\<And>env limit c processedJobs s y. rec env limit c processedJobs s = Some y \<Longrightarrow>
      \<forall>js. fst y = Inr (Jobs js) \<longrightarrow> js = []"
  assume body: "(if processedJobs < limit then
        (case loadJobs env c s of
           (r, s1) \<Rightarrow>
             if \<not> success r then
               (case takeScreenshot env NoJobsFound s1 of
                  (Inl e, s2) \<Rightarrow> Some (Inl e, s2)
                | (Inr u, s2) \<Rightarrow> Some (Inr (Jobs []), s2))
             else
               let res = batches env c;
                   s2 = s1\<lparr>trace := trace s1 @ [Extract]\<rparr>;
                   processedJobs' = processedJobs + int (length res)
               in if processedJobs' \<ge> limit then
                    (case takeScreenshot env LimitReached s2 of
                       (Inl e, s3) \<Rightarrow> Some (Inl e, s3)
                     | (Inr u, s3) \<Rightarrow> Some (Inr Undefined, s3))
                  else
                    (case paginate 25 s2 of
                       (Inl e, s3) \<Rightarrow> Some (Inl e, s3)
                     | (Inr u, s3) \<Rightarrow> rec env limit (Suc c) processedJobs' s3))
      else Some (Inr Undefined, s)) = Some y"
  show "\<forall>js. fst y = Inr (Jobs js) \<longrightarrow> js = []"
    using body IH
    by (auto simp: Let_def split: if_splits prod.splits sum.splits)
qed

lemma searchJobs_never_returns_records:
  "searchJobs env keywords location limit s = Some (Inr (Jobs js), s') \<Longrightarrow> js = []"
  using search_loop_never_returns_records
  by (fastforce simp: searchJobs_def split: option.splits prod.splits sum.splits)

text \<open>
  Claim C2 says that a search in which no convergence pass fails returns the extracted
  records. On the demo site with \<open>limit = 10\<close> the one pass succeeds and the extractor
  yields ten records, yet the call returns \<open>undefined\<close>: the method ends without a
  \<open>return\<close>; its only \<open>return\<close> is the \<open>return []\<close> of the failed pass.
\<close>

theorem searchJobs_returns_undefined:
  "searchJobs demo_env ''dev'' ''Athens'' 10 home_state =
     Some (Inr Undefined,
       home_state
         \<lparr>page := Some \<lparr>current = search_url demo_env ''dev'' ''Athens''\<rparr>,
          screenshotCount := 4,
          trace := trace home_state @
            [Goto (search_url demo_env ''dev'' ''Athens''), Capture 2 SearchPage,
             LoadJobs, Extract, Capture 3 LimitReached]\<rparr>)
   \<and> batches demo_env 0 = replicate 10 ''job''"
proof -
  have "searchJobs demo_env ''dev'' ''Athens'' 10 home_state =
     Some (Inr Undefined,
       home_state
         \<lparr>page := Some \<lparr>current = search_url demo_env ''dev'' ''Athens''\<rparr>,
          screenshotCount := 4,
          trace := trace home_state @
            [Goto (search_url demo_env ''dev'' ''Athens''), Capture 2 SearchPage,
             LoadJobs, Extract, Capture 3 LimitReached]\<rparr>)"
  proof -
    let ?u = "search_url demo_env ''dev'' ''Athens''"
    define s0 where "s0 = home_state
      \<lparr>page := Some \<lparr>current = ?u\<rparr>, screenshotCount := 3,
       trace := trace home_state @ [Goto ?u, Capture 2 SearchPage]\<rparr>"
    have start: "searchJobs demo_env ''dev'' ''Athens'' 10 home_state = search_loop demo_env 10 0 0 s0"
      by (simp add: searchJobs_def home_state_eq takeScreenshot_def Let_def goto_def s0_def)
         (simp add: demo_env_def)
    have load: "success (fst (loadJobs demo_env 0 s0))"
      by (simp add: demo_loads s0_def converged_def)
    have quota: "(10::int) \<le> 0 + int (length (batches demo_env 0))"
      by (simp add: demo_env_def)
    have ok: "\<not> shot_fails demo_env 3"
      by (simp add: demo_env_def)
    show ?thesis
      unfolding start search_loop_quota [of 0 10 demo_env 0 s0, OF _ load quota, simplified]
      using ok by (simp add: takeScreenshot_def Let_def s0_def home_state_eq)
  qed
  then show ?thesis
    by (simp add: demo_env_def)
qed

section \<open>Closing\<close>

text \<open>
  Claim C7 says that \<open>close\<close> never raises and that every call after the first changes
  nothing. With a browser whose \<open>close()\<close> rejects, \<open>close\<close> on an initialized scraper
  raises and keeps the handle, and the next \<open>close\<close> raises again.
\<close>

theorem close_rejection_raises:
  "fst (close stuck_env home_state) = Inl CloseFailed
   \<and> page (snd (close stuck_env home_state)) = page home_state
   \<and> page home_state \<noteq> None
   \<and> fst (close stuck_env (snd (close stuck_env home_state))) = Inl CloseFailed"
  by (simp add: close_def stuck_env_def demo_env_def home_state_eq Let_def)

text \<open>
  Claim C7 as amended: \<open>close\<close> raises only when \<open>browser.close()\<close> rejects. Without a
  page it changes nothing and does not raise, so it is safe before \<open>initialize\<close>. With a
  page and a browser that closes, it releases the browser and clears the handle, and
  after a \<open>close\<close> that has returned any further \<open>close\<close> changes nothing and does not
  raise. An \<open>initialize\<close> that has returned has left a page, so the first \<open>close\<close> after
  it reaches the browser. When \<open>browser.close()\<close> rejects, \<open>close\<close> raises with that error
  and keeps the handle.
\<close>

theorem close_raises_only_on_rejection:
  "(page s = None \<longrightarrow> close env s = (Inr (), s))
   \<and> (page s \<noteq> None \<and> \<not> close_fails env \<longrightarrow>
        close env s = (Inr (), s\<lparr>trace := trace s @ [BrowserClose], page := None\<rparr>))
   \<and> (page s \<noteq> None \<and> close_fails env \<longrightarrow>
        close env s = (Inl CloseFailed, s\<lparr>trace := trace s @ [BrowserClose]\<rparr>))
   \<and> (fst (close env s) = Inr () \<longrightarrow>
        close env' (snd (close env s)) = (Inr (), snd (close env s)))
   \<and> (fst (initialize env liAtCookie s) = Inr () \<longrightarrow>
        page (snd (initialize env liAtCookie s)) \<noteq> None)"
  by (auto simp add: close_def initialize_def isLoggedIn_def Let_def takeScreenshot_def
      split: option.splits)

theorem close_raises_only_on_rejection_witness:
  "page new_scraper = None
   \<and> close stuck_env new_scraper = (Inr (), new_scraper)
   \<and> fst (initialize demo_env ''cookie'' new_scraper) = Inr ()
   \<and> page home_state \<noteq> None
   \<and> \<not> close_fails demo_env
   \<and> close demo_env home_state =
       (Inr (), home_state\<lparr>trace := trace home_state @ [BrowserClose], page := None\<rparr>)
   \<and> close stuck_env (snd (close demo_env home_state)) = (Inr (), snd (close demo_env home_state))
   \<and> close_fails stuck_env
   \<and> close stuck_env home_state =
       (Inl CloseFailed, home_state\<lparr>trace := trace home_state @ [BrowserClose]\<rparr>)"
proof -
  have fresh: "page new_scraper = None"
    by (simp add: new_scraper_def)
  have init: "fst (initialize demo_env ''cookie'' new_scraper) = Inr ()"
    by (simp add: initialize_def isLoggedIn_def Let_def takeScreenshot_def demo_env_def
        new_scraper_def)
  have willing: "\<not> close_fails demo_env" and stuck: "close_fails stuck_env"
    by (simp_all add: demo_env_def stuck_env_def)
  note before = close_raises_only_on_rejection [of new_scraper stuck_env]
  note good = close_raises_only_on_rejection [of home_state demo_env stuck_env]
  note bad = close_raises_only_on_rejection [of home_state stuck_env]
  note made = close_raises_only_on_rejection [of new_scraper demo_env _ "''cookie''"]
  from before fresh have noop: "close stuck_env new_scraper = (Inr (), new_scraper)"
    by blast
  from made init have opened: "page home_state \<noteq> None"
    unfolding home_state_def by blast
  from good opened willing have released: "close demo_env home_state =
       (Inr (), home_state\<lparr>trace := trace home_state @ [BrowserClose], page := None\<rparr>)"
    by blast
  then have "fst (close demo_env home_state) = Inr ()"
    by simp
  with good have again:
    "close stuck_env (snd (close demo_env home_state)) = (Inr (), snd (close demo_env home_state))"
    by blast
  from bad opened stuck have raised: "close stuck_env home_state =
       (Inl CloseFailed, home_state\<lparr>trace := trace home_state @ [BrowserClose]\<rparr>)"
    by blast
  from fresh noop init opened willing released again stuck raised show ?thesis
    by blast
qed

section \<open>The retry policy around convergence detection\<close>

lemma run_attempts_cong:
  "\<forall>a<n. operation (a0 + a) = operation' (a0 + a) \<Longrightarrow>
   run_attempts n a0 now delay operation = run_attempts n a0 now delay operation'"
proof (induction n arbitrary: a0 now)
  case 0
  show ?case by simp
next
  case (Suc n)
  have head: "operation a0 = operation' a0"
    using Suc.prems [rule_format, of 0] by simp
  have "\<forall>a<n. operation (Suc a0 + a) = operation' (Suc a0 + a)"
  proof (intro allI impI)
    fix a assume "a < n"
    then show "operation (Suc a0 + a) = operation' (Suc a0 + a)"
      using Suc.prems [rule_format, of "Suc a"] by simp
  qed
  from Suc.IH [OF this] head show ?case
    by (simp split: prod.splits option.splits sum.splits)
qed

text \<open>
  Claim C8: \<open>_loadJobs\<close> is \<open>retry\<close> applied to the detection procedure with the
  configuration of 3 attempts, 300 ms delay and 30000 ms timeout. Each attempt runs the
  procedure on its own readings from the first one on. When the attempts before attempt
  \<open>k < 3\<close> have thrown and attempt \<open>k\<close> returns, the pass returns what attempt \<open>k\<close>
  returns, unless the time of the attempts so far and of the \<open>k\<close> delays of 300 ms between
  them exceeds 30000 ms: then it returns the \<open>Timeout\<close> failure, as it does when attempt
  \<open>k\<close> never returns. When three attempts have thrown it returns the \<open>RetryExhausted\<close>
  failure, again unless their time and the two delays exceed 30000 ms. Nothing beyond the
  third attempt has any influence.
\<close>

theorem loadJobs_retry_policy:
  "fst (loadJobs env c s) =
     retry (\<lambda>a. (load_attempt (page s) (polls env c a), attempt_ms env c a))
       \<lparr>maxAttempts = 3, delayMs = 300, timeout = 30000\<rparr>
   \<and> (k < 3 \<and> (\<forall>a<k. \<exists>e. load_attempt (page s) (polls env c a) = Some (Inl e))
        \<and> load_attempt (page s) (polls env c k) = Some (Inr r)
      \<longrightarrow> fst (loadJobs env c s) =
            (if 30000 < sum (attempt_ms env c) {..k} + 300 * k then failed Timeout else r))
   \<and> (k < 3 \<and> (\<forall>a<k. \<exists>e. load_attempt (page s) (polls env c a) = Some (Inl e))
        \<and> load_attempt (page s) (polls env c k) = None
      \<longrightarrow> fst (loadJobs env c s) = failed Timeout)
   \<and> ((\<forall>a<3. \<exists>e. load_attempt (page s) (polls env c a) = Some (Inl e))
      \<longrightarrow> fst (loadJobs env c s) =
            (if 30000 < sum (attempt_ms env c) {..<3} + 300 * 2 then failed Timeout
             else failed RetryExhausted))
   \<and> ((\<forall>a<3. polls env' c a = polls env c a \<and> attempt_ms env' c a = attempt_ms env c a)
      \<longrightarrow> fst (loadJobs env' c s) = fst (loadJobs env c s))"
proof (intro conjI impI)
  show "fst (loadJobs env c s) =
     retry (\<lambda>a. (load_attempt (page s) (polls env c a), attempt_ms env c a))
       \<lparr>maxAttempts = 3, delayMs = 300, timeout = 30000\<rparr>"
    by (simp add: loadJobs_def loadJobs_config_def)
next
  assume h: "k < 3 \<and> (\<forall>a<k. \<exists>e. load_attempt (page s) (polls env c a) = Some (Inl e))
        \<and> load_attempt (page s) (polls env c k) = Some (Inr r)"
  then have ok: "success r"
    using load_attempt_success by blast
  from h consider "k = 0" | "k = Suc 0" | "k = Suc (Suc 0)"
    by linarith
  then show "fst (loadJobs env c s) =
            (if 30000 < sum (attempt_ms env c) {..k} + 300 * k then failed Timeout else r)"
  proof cases
    case 1
    with h ok show ?thesis
      by (simp add: loadJobs_def loadJobs_config_def retry_def numeral_3_eq_3)
  next
    case 2
    with h obtain e where "load_attempt (page s) (polls env c 0) = Some (Inl e)"
      by auto
    with 2 h ok show ?thesis
      by (simp add: loadJobs_def loadJobs_config_def retry_def numeral_3_eq_3)
  next
    case 3
    with h obtain e0 e1 where "load_attempt (page s) (polls env c 0) = Some (Inl e0)"
      and "load_attempt (page s) (polls env c (Suc 0)) = Some (Inl e1)"
      by (metis One_nat_def lessI less_Suc_eq zero_less_Suc)
    with 3 h ok show ?thesis
      by (simp add: loadJobs_def loadJobs_config_def retry_def numeral_3_eq_3)
  qed
next
  assume h: "k < 3 \<and> (\<forall>a<k. \<exists>e. load_attempt (page s) (polls env c a) = Some (Inl e))
        \<and> load_attempt (page s) (polls env c k) = None"
  from h consider "k = 0" | "k = Suc 0" | "k = Suc (Suc 0)"
    by linarith
  then show "fst (loadJobs env c s) = failed Timeout"
  proof cases
    case 1
    with h show ?thesis
      by (simp add: loadJobs_def loadJobs_config_def retry_def numeral_3_eq_3)
  next
    case 2
    with h obtain e where "load_attempt (page s) (polls env c 0) = Some (Inl e)"
      by auto
    with 2 h show ?thesis
      by (simp add: loadJobs_def loadJobs_config_def retry_def numeral_3_eq_3)
  next
    case 3
    with h obtain e0 e1 where "load_attempt (page s) (polls env c 0) = Some (Inl e0)"
      and "load_attempt (page s) (polls env c (Suc 0)) = Some (Inl e1)"
      by (metis One_nat_def lessI less_Suc_eq zero_less_Suc)
    with 3 h show ?thesis
      by (simp add: loadJobs_def loadJobs_config_def retry_def numeral_3_eq_3)
  qed
next
  assume h: "\<forall>a<3. \<exists>e. load_attempt (page s) (polls env c a) = Some (Inl e)"
  then obtain e0 e1 e2 where "load_attempt (page s) (polls env c 0) = Some (Inl e0)"
    and "load_attempt (page s) (polls env c (Suc 0)) = Some (Inl e1)"
    and "load_attempt (page s) (polls env c (Suc (Suc 0))) = Some (Inl e2)"
    by (metis One_nat_def Suc_1 lessI less_Suc_eq numeral_3_eq_3 zero_less_Suc)
  then show "fst (loadJobs env c s) =
            (if 30000 < sum (attempt_ms env c) {..<3} + 300 * 2 then failed Timeout
             else failed RetryExhausted)"
    by (simp add: loadJobs_def loadJobs_config_def retry_def numeral_3_eq_3 add.assoc)
next
  assume "\<forall>a<3. polls env' c a = polls env c a \<and> attempt_ms env' c a = attempt_ms env c a"
  then have "run_attempts 3 0 0 300 (\<lambda>a. (load_attempt (page s) (polls env' c a), attempt_ms env' c a))
      = run_attempts 3 0 0 300 (\<lambda>a. (load_attempt (page s) (polls env c a), attempt_ms env c a))"
    by (intro run_attempts_cong) simp
  then show "fst (loadJobs env' c s) = fst (loadJobs env c s)"
    by (simp add: loadJobs_def loadJobs_config_def retry_def)
qed

theorem loadJobs_retry_policy_witness:
  "load_attempt (page home_state) (polls flaky_env 0 0) = Some (Inl PageError)
   \<and> load_attempt (page home_state) (polls flaky_env 0 1) = Some (Inr (converged 2))
   \<and> sum (attempt_ms flaky_env 0) {..1} + 300 * 1 = 2300
   \<and> fst (loadJobs flaky_env 0 home_state) = converged 2
   \<and> load_attempt (page home_state) (polls slow_env 0 0) = Some (Inl PageError)
   \<and> load_attempt (page home_state) (polls slow_env 0 1) = Some (Inr (converged 2))
   \<and> sum (attempt_ms slow_env 0) {..1} + 300 * 1 = 30300
   \<and> fst (loadJobs slow_env 0 home_state) = failed Timeout
   \<and> load_attempt (page home_state) (polls growing_env 0 0) = None
   \<and> fst (loadJobs growing_env 0 home_state) = failed Timeout
   \<and> (\<forall>a. load_attempt (page home_state) (polls detached_env 0 a) = Some (Inl PageError))
   \<and> sum (attempt_ms detached_env 0) {..<3} + 300 * 2 = 3600
   \<and> fst (loadJobs detached_env 0 home_state) = failed RetryExhausted
   \<and> fst (loadJobs late_env 0 home_state) = fst (loadJobs flaky_env 0 home_state)"
proof -
  have pg: "page home_state = Some \<lparr>current = home demo_env\<rparr>"
    by (simp add: home_state_eq)
  have f0: "load_attempt (page home_state) (polls flaky_env 0 0) = Some (Inl PageError)"
    using attempt_flaky by (simp add: pg flaky_env_def)
  have f1: "load_attempt (page home_state) (polls flaky_env 0 1) = Some (Inr (converged 2))"
    using attempt_demo by (simp add: pg flaky_env_def)
  have ft: "sum (attempt_ms flaky_env 0) {..1} + 300 * 1 = 2300"
    by (simp add: flaky_env_def demo_env_def)
  have s0: "load_attempt (page home_state) (polls slow_env 0 0) = Some (Inl PageError)"
    using f0 by (simp add: slow_env_def)
  have s1: "load_attempt (page home_state) (polls slow_env 0 1) = Some (Inr (converged 2))"
    using f1 by (simp add: slow_env_def)
  have st: "sum (attempt_ms slow_env 0) {..1} + 300 * 1 = 30300"
    by (simp add: slow_env_def)
  have g0: "load_attempt (page home_state) (polls growing_env 0 0) = None"
    using attempt_growing by (simp add: pg growing_env_def)
  have d: "\<forall>a. load_attempt (page home_state) (polls detached_env 0 a) = Some (Inl PageError)"
    using attempt_detached by (simp add: pg detached_env_def)
  have dt: "sum (attempt_ms detached_env 0) {..<3} + 300 * 2 = 3600"
    by (simp add: detached_env_def demo_env_def numeral_3_eq_3)
  have same: "\<forall>a<3. polls late_env 0 a = polls flaky_env 0 a
      \<and> attempt_ms late_env 0 a = attempt_ms flaky_env 0 a"
    by (simp add: late_env_def)
  have first: "(1::nat) < 3 \<and> (\<forall>a<1. \<exists>e. load_attempt (page home_state) (polls flaky_env 0 a) = Some (Inl e))
      \<and> load_attempt (page home_state) (polls flaky_env 0 1) = Some (Inr (converged 2))"
    using f0 f1 by simp
  have late: "(1::nat) < 3 \<and> (\<forall>a<1. \<exists>e. load_attempt (page home_state) (polls slow_env 0 a) = Some (Inl e))
      \<and> load_attempt (page home_state) (polls slow_env 0 1) = Some (Inr (converged 2))"
    using s0 s1 by simp
  have hang: "(0::nat) < 3 \<and> (\<forall>a<0. \<exists>e. load_attempt (page home_state) (polls growing_env 0 a) = Some (Inl e))
      \<and> load_attempt (page home_state) (polls growing_env 0 0) = None"
    using g0 by simp
  have all3: "\<forall>a<3. \<exists>e. load_attempt (page home_state) (polls detached_env 0 a) = Some (Inl e)"
    using d by simp
  have "fst (loadJobs flaky_env 0 home_state) =
      (if 30000 < sum (attempt_ms flaky_env 0) {..1} + 300 * 1 then failed Timeout else converged 2)"
    using loadJobs_retry_policy [of flaky_env 0 home_state 1 "converged 2"] first by blast
  then have r1: "fst (loadJobs flaky_env 0 home_state) = converged 2"
    unfolding ft by simp
  have "fst (loadJobs slow_env 0 home_state) =
      (if 30000 < sum (attempt_ms slow_env 0) {..1} + 300 * 1 then failed Timeout else converged 2)"
    using loadJobs_retry_policy [of slow_env 0 home_state 1 "converged 2"] late by blast
  then have r2: "fst (loadJobs slow_env 0 home_state) = failed Timeout"
    unfolding st by simp
  have r3: "fst (loadJobs growing_env 0 home_state) = failed Timeout"
    using loadJobs_retry_policy [of growing_env 0 home_state 0] hang by blast
  have "fst (loadJobs detached_env 0 home_state) =
      (if 30000 < sum (attempt_ms detached_env 0) {..<3} + 300 * 2 then failed Timeout
       else failed RetryExhausted)"
    using loadJobs_retry_policy [of detached_env 0 home_state] all3 by blast
  then have r4: "fst (loadJobs detached_env 0 home_state) = failed RetryExhausted"
    unfolding dt by simp
  have r5: "fst (loadJobs late_env 0 home_state) = fst (loadJobs flaky_env 0 home_state)"
    using loadJobs_retry_policy [of flaky_env 0 home_state _ _ late_env] same by blast
  from f0 f1 ft r1 s0 s1 st r2 g0 r3 d dt r4 r5 show ?thesis
    by blast
qed

section \<open>Diagnostic captures that fail\<close>

lemma search_loop_failed_capture:
  assumes ret: "search_loop env limit c processedJobs s = Some y"
  shows "\<exists>evs. trace (snd y) = trace s @ evs
           \<and> (\<forall>n lbl. Capture n lbl \<in> set evs \<and> shot_fails env n \<longrightarrow> fst y = Inl CaptureFailed)"
proof (rule search_loop.raw_induct [OF _ ret])
  fix rec :: "env \<Rightarrow> int \<Rightarrow> nat \<Rightarrow> int \<Rightarrow> state \<Rightarrow> ((error + returned) \<times> state) option"
  fix env limit c processedJobs s y
  assume IH: "\<And>env limit c processedJobs s y. rec env limit c processedJobs s = Some y \<Longrightarrow>
      \<exists>evs. trace (snd y) = trace s @ evs
           \<and> (\<forall>n lbl. Capture n lbl \<in> set evs \<and> shot_fails env n \<longrightarrow> fst y = Inl CaptureFailed)"
  assume body: "(if processedJobs < limit then
        (case loadJobs env c s of
           (r, s1) \<Rightarrow>
             if \<not> success r then
               (case takeScreenshot env NoJobsFound s1 of
                  (Inl e, s2) \<Rightarrow> Some (Inl e, s2)
                | (Inr u, s2) \<Rightarrow> Some (Inr (Jobs []), s2))
             else
               let res = batches env c;
                   s2 = s1\<lparr>trace := trace s1 @ [Extract]\<rparr>;
                   processedJobs' = processedJobs + int (length res)
               in if processedJobs' \<ge> limit then
                    (case takeScreenshot env LimitReached s2 of
                       (Inl e, s3) \<Rightarrow> Some (Inl e, s3)
                     | (Inr u, s3) \<Rightarrow> Some (Inr Undefined, s3))
                  else
                    (case paginate 25 s2 of
                       (Inl e, s3) \<Rightarrow> Some (Inl e, s3)
                     | (Inr u, s3) \<Rightarrow> rec env limit (Suc c) processedJobs' s3))
      else Some (Inr Undefined, s)) = Some y"
  let ?goal = "\<exists>evs. trace (snd y) = trace s @ evs
           \<and> (\<forall>n lbl. Capture n lbl \<in> set evs \<and> shot_fails env n \<longrightarrow> fst y = Inl CaptureFailed)"
  show ?goal
  proof (cases "processedJobs < limit")
    case False
    with body have "y = (Inr Undefined, s)" by simp
    then show ?thesis by simp
  next
    case True
    note enter = this
    define s1 where "s1 = s\<lparr>trace := trace s @ [LoadJobs]\<rparr>"
    show ?thesis
    proof (cases "success (fst (loadJobs env c s))")
      case False
      with body enter have
        "(case takeScreenshot env NoJobsFound s1 of
            (Inl e, s2) \<Rightarrow> Some (Inl e, s2)
          | (Inr u, s2) \<Rightarrow> Some (Inr (Jobs []), s2)) = Some y"
        by (simp add: case_prod_unfold s1_def)
      then show ?thesis
        by (auto simp: takeScreenshot_def Let_def s1_def split: option.splits if_splits)
    next
      case True
      note loaded = this
      define s2 where "s2 = s\<lparr>trace := trace s @ [LoadJobs, Extract]\<rparr>"
      let ?total = "processedJobs + int (length (batches env c))"
      show ?thesis
      proof (cases "limit \<le> ?total")
        case True
        with body enter loaded have
          "(case takeScreenshot env LimitReached s2 of
              (Inl e, s3) \<Rightarrow> Some (Inl e, s3)
            | (Inr u, s3) \<Rightarrow> Some (Inr Undefined, s3)) = Some y"
          by (simp add: case_prod_unfold Let_def s2_def)
        then show ?thesis
          by (auto simp: takeScreenshot_def Let_def s2_def split: option.splits if_splits)
      next
        case False
        with body enter loaded have next_step:
          "(case paginate 25 s2 of
              (Inl e, s3) \<Rightarrow> Some (Inl e, s3)
            | (Inr u, s3) \<Rightarrow> rec env limit (Suc c) ?total s3) = Some y"
          by (simp add: case_prod_unfold Let_def s2_def)
        show ?thesis
        proof (cases "page s2")
          case None
          with next_step have "y = (Inl PageUnavailable, s2)"
            by (simp add: paginate_def)
          then show ?thesis
            by (simp add: s2_def)
        next
          case (Some p)
          define s3 where "s3 = goto (next_url 25 (current p)) p s2"
          from next_step Some have "rec env limit (Suc c) ?total s3 = Some y"
            by (simp add: paginate_def s3_def)
          from IH [OF this] obtain evs where tr: "trace (snd y) = trace s3 @ evs"
            and cap: "\<forall>n lbl. Capture n lbl \<in> set evs \<and> shot_fails env n \<longrightarrow> fst y = Inl CaptureFailed"
            by blast
          have "trace (snd y) = trace s @ ([LoadJobs, Extract, Goto (next_url 25 (current p))] @ evs)"
            using tr by (simp add: s3_def s2_def)
          moreover have "\<forall>n lbl. Capture n lbl \<in> set ([LoadJobs, Extract, Goto (next_url 25 (current p))] @ evs)
                \<and> shot_fails env n \<longrightarrow> fst y = Inl CaptureFailed"
            using cap by auto
          ultimately show ?thesis
            by blast
        qed
      qed
    qed
  qed
qed

lemma searchJobs_failed_capture:
  assumes ret: "searchJobs env keywords location limit s = Some (r, s')"
    and cap: "Capture n lbl \<in> set (drop (length (trace s)) (trace s'))"
    and bad: "shot_fails env n"
  shows "r = Inl CaptureFailed"
proof (cases "page s")
  case None
  with ret have "s' = s" by (simp add: searchJobs_def)
  with cap show ?thesis by simp
next
  case (Some p)
  define s1 where "s1 = (goto (search_url env keywords location) p s)
      \<lparr>trace := trace s @ [Goto (search_url env keywords location), Capture (screenshotCount s) SearchPage]\<rparr>"
  show ?thesis
  proof (cases "shot_fails env (screenshotCount s)")
    case True
    with ret Some show ?thesis
      by (auto simp: searchJobs_def takeScreenshot_def Let_def)
  next
    case False
    with ret Some have loop:
      "search_loop env limit 0 0 (s1\<lparr>screenshotCount := Suc (screenshotCount s)\<rparr>) = Some (r, s')"
      by (simp add: searchJobs_def takeScreenshot_def Let_def s1_def goto_def)
    from search_loop_failed_capture [OF loop] obtain evs
      where tr: "trace s' = trace s @ [Goto (search_url env keywords location),
                    Capture (screenshotCount s) SearchPage] @ evs"
        and caps: "\<forall>n lbl. Capture n lbl \<in> set evs \<and> shot_fails env n \<longrightarrow> r = Inl CaptureFailed"
      by (auto simp: s1_def)
    from cap tr have "Capture n lbl = Capture (screenshotCount s) SearchPage \<or> Capture n lbl \<in> set evs"
      by auto
    with False bad caps show ?thesis
      by auto
  qed
qed

text \<open>
  Claim C9 says that a capture that fails is swallowed and never changes the outcome of
  \<open>initialize\<close> or \<open>searchJobs\<close>. It is not so: on the demo site both calls succeed, and on
  the same site with the one capture they take rejecting, both fail with the capture's
  error.
\<close>

theorem capture_failure_changes_outcome:
  "fst (initialize (broken_capture_env 1) ''cookie'' new_scraper) = Inl CaptureFailed
   \<and> fst (initialize demo_env ''cookie'' new_scraper) = Inr ()
   \<and> map_option fst (searchJobs (broken_capture_env 2) ''dev'' ''Athens'' 10 home_state)
       = Some (Inl CaptureFailed)
   \<and> map_option fst (searchJobs demo_env ''dev'' ''Athens'' 10 home_state) = Some (Inr Undefined)"
  by (simp add: initialize_def isLoggedIn_def Let_def takeScreenshot_def broken_capture_env_def
      demo_env_def new_scraper_def searchJobs_def home_state_eq goto_def
      search_loop_quota stable_loads converged_def)

text \<open>
  Claim C9 as amended: a failure of a diagnostic capture is not swallowed. With a page,
  \<open>_takeScreenshot\<close> rejects with the capture's error before the counter is incremented;
  the \<open>initialize\<close> whose capture fails, fails with that error; and whenever a \<open>searchJobs\<close>
  that returns has issued a capture that fails, whichever of its captures it is, it has
  failed with that error. Without a page \<open>_takeScreenshot\<close> makes no screenshot call and
  so cannot fail; it still increments the counter.
\<close>

theorem capture_failure_propagates:
  "(page s \<noteq> None \<and> shot_fails env (screenshotCount s) \<longrightarrow>
      takeScreenshot env lbl s =
        (Inl CaptureFailed, s\<lparr>trace := trace s @ [Capture (screenshotCount s) lbl]\<rparr>))
   \<and> (page s = None \<longrightarrow>
        takeScreenshot env lbl s = (Inr (), s\<lparr>screenshotCount := screenshotCount s + 1\<rparr>))
   \<and> (shot_fails env (screenshotCount s) \<longrightarrow>
        fst (initialize env liAtCookie s) = Inl CaptureFailed)
   \<and> (searchJobs env keywords location limit s = Some (r, s')
        \<and> Capture n lb \<in> set (drop (length (trace s)) (trace s')) \<and> shot_fails env n \<longrightarrow>
        r = Inl CaptureFailed)"
proof (intro conjI impI)
  assume "page s \<noteq> None \<and> shot_fails env (screenshotCount s)"
  then show "takeScreenshot env lbl s =
        (Inl CaptureFailed, s\<lparr>trace := trace s @ [Capture (screenshotCount s) lbl]\<rparr>)"
    by (auto simp: takeScreenshot_def Let_def)
next
  assume "page s = None"
  then show "takeScreenshot env lbl s = (Inr (), s\<lparr>screenshotCount := screenshotCount s + 1\<rparr>)"
    by (simp add: takeScreenshot_def)
next
  assume "shot_fails env (screenshotCount s)"
  then show "fst (initialize env liAtCookie s) = Inl CaptureFailed"
    by (simp add: initialize_def isLoggedIn_def Let_def takeScreenshot_def)
next
  assume "searchJobs env keywords location limit s = Some (r, s')
        \<and> Capture n lb \<in> set (drop (length (trace s)) (trace s')) \<and> shot_fails env n"
  then show "r = Inl CaptureFailed"
    using searchJobs_failed_capture by blast
qed

lemma searchJobs_limit_capture_trace:
  "\<exists>r s'. searchJobs (broken_capture_env 3) ''dev'' ''Athens'' 10 home_state = Some (r, s')
     \<and> trace s' = trace home_state @
          [Goto (search_url (broken_capture_env 3) ''dev'' ''Athens''), Capture 2 SearchPage,
           LoadJobs, Extract, Capture 3 LimitReached]"
proof -
  let ?env = "broken_capture_env 3"
  let ?u = "search_url ?env ''dev'' ''Athens''"
  define s0 where "s0 = home_state
      \<lparr>page := Some \<lparr>current = ?u\<rparr>, screenshotCount := 3,
       trace := trace home_state @ [Goto ?u, Capture 2 SearchPage]\<rparr>"
  have start: "searchJobs ?env ''dev'' ''Athens'' 10 home_state = search_loop ?env 10 0 0 s0"
    by (simp add: searchJobs_def home_state_eq takeScreenshot_def Let_def goto_def s0_def)
       (simp add: broken_capture_env_def demo_env_def)
  have load: "success (fst (loadJobs ?env 0 s0))"
    by (simp add: stable_loads s0_def converged_def broken_capture_env_def demo_env_def)
  have quota: "(10::int) \<le> 0 + int (length (batches ?env 0))"
    by (simp add: broken_capture_env_def demo_env_def)
  have bad: "shot_fails ?env 3"
    by (simp add: broken_capture_env_def)
  show ?thesis
    unfolding start search_loop_quota [of 0 10 ?env 0 s0, OF _ load quota, simplified]
    using bad by (simp add: takeScreenshot_def Let_def s0_def home_state_eq)
qed

lemma searchJobs_nojobs_capture_trace:
  "\<exists>r s'. searchJobs detached_broken_env ''dev'' ''Athens'' 25 home_state = Some (r, s')
     \<and> trace s' = trace home_state @
          [Goto (search_url detached_broken_env ''dev'' ''Athens''), Capture 2 SearchPage,
           LoadJobs, Capture 3 NoJobsFound]"
proof -
  let ?env = "detached_broken_env"
  let ?u = "search_url ?env ''dev'' ''Athens''"
  define s0 where "s0 = home_state
      \<lparr>page := Some \<lparr>current = ?u\<rparr>, screenshotCount := 3,
       trace := trace home_state @ [Goto ?u, Capture 2 SearchPage]\<rparr>"
  have start: "searchJobs ?env ''dev'' ''Athens'' 25 home_state = search_loop ?env 25 0 0 s0"
    by (simp add: searchJobs_def home_state_eq takeScreenshot_def Let_def goto_def s0_def)
       (simp add: detached_broken_env_def detached_env_def demo_env_def)
  have load: "\<not> success (fst (loadJobs ?env 0 s0))"
    using detached_loads [of ?env 0 s0]
    by (simp add: s0_def failed_def detached_broken_env_def detached_env_def demo_env_def)
  have bad: "shot_fails ?env 3"
    by (simp add: detached_broken_env_def)
  show ?thesis
    unfolding start search_loop_load_failed [of 0 25 ?env 0 s0, OF _ load, simplified]
    using bad by (simp add: takeScreenshot_def Let_def s0_def home_state_eq)
qed

theorem capture_failure_propagates_witness:
  "page home_state \<noteq> None
   \<and> shot_fails (broken_capture_env 2) (screenshotCount home_state)
   \<and> takeScreenshot (broken_capture_env 2) SearchPage home_state =
       (Inl CaptureFailed, home_state\<lparr>trace := trace home_state @ [Capture 2 SearchPage]\<rparr>)
   \<and> page new_scraper = None
   \<and> takeScreenshot (broken_capture_env 1) HomePage new_scraper =
       (Inr (), new_scraper\<lparr>screenshotCount := 2\<rparr>)
   \<and> shot_fails (broken_capture_env 1) (screenshotCount new_scraper)
   \<and> fst (initialize (broken_capture_env 1) ''cookie'' new_scraper) = Inl CaptureFailed
   \<and> shot_fails (broken_capture_env 3) 3
   \<and> (\<exists>s'. searchJobs (broken_capture_env 3) ''dev'' ''Athens'' 10 home_state
             = Some (Inl CaptureFailed, s')
          \<and> Capture 3 LimitReached \<in> set (drop (length (trace home_state)) (trace s')))
   \<and> shot_fails detached_broken_env 3
   \<and> (\<exists>s'. searchJobs detached_broken_env ''dev'' ''Athens'' 25 home_state
             = Some (Inl CaptureFailed, s')
          \<and> Capture 3 NoJobsFound \<in> set (drop (length (trace home_state)) (trace s')))"
proof -
  have pg: "page home_state \<noteq> None" and cnt: "screenshotCount home_state = 2"
    by (simp_all add: home_state_eq)
  have fresh: "page new_scraper = None" and one: "screenshotCount new_scraper = 1"
    by (simp_all add: new_scraper_def)
  have bad2: "shot_fails (broken_capture_env 2) (screenshotCount home_state)"
    by (simp add: broken_capture_env_def cnt)
  have bad1: "shot_fails (broken_capture_env 1) (screenshotCount new_scraper)"
    by (simp add: broken_capture_env_def one)
  have bad3: "shot_fails (broken_capture_env 3) 3" and bad4: "shot_fails detached_broken_env 3"
    by (simp_all add: broken_capture_env_def detached_broken_env_def)
  have a: "takeScreenshot (broken_capture_env 2) SearchPage home_state =
       (Inl CaptureFailed, home_state\<lparr>trace := trace home_state @ [Capture 2 SearchPage]\<rparr>)"
    using capture_failure_propagates [of home_state "broken_capture_env 2" SearchPage] pg bad2 cnt
    by simp
  have b: "takeScreenshot (broken_capture_env 1) HomePage new_scraper =
       (Inr (), new_scraper\<lparr>screenshotCount := 2\<rparr>)"
    using capture_failure_propagates [of new_scraper "broken_capture_env 1" HomePage] fresh one
    by simp
  have c: "fst (initialize (broken_capture_env 1) ''cookie'' new_scraper) = Inl CaptureFailed"
    using capture_failure_propagates [of new_scraper "broken_capture_env 1" _ "''cookie''"] bad1
    by blast
  obtain r1 s1 where run1: "searchJobs (broken_capture_env 3) ''dev'' ''Athens'' 10 home_state = Some (r1, s1)"
    and tr1: "trace s1 = trace home_state @
          [Goto (search_url (broken_capture_env 3) ''dev'' ''Athens''), Capture 2 SearchPage,
           LoadJobs, Extract, Capture 3 LimitReached]"
    using searchJobs_limit_capture_trace by blast
  have in1: "Capture 3 LimitReached \<in> set (drop (length (trace home_state)) (trace s1))"
    by (simp add: tr1)
  have "r1 = Inl CaptureFailed"
    using capture_failure_propagates [of home_state "broken_capture_env 3" _ _ "''dev''" "''Athens''"
        10 r1 s1 3 LimitReached] run1 in1 bad3
    by blast
  with run1 in1 have d: "\<exists>s'. searchJobs (broken_capture_env 3) ''dev'' ''Athens'' 10 home_state
             = Some (Inl CaptureFailed, s')
          \<and> Capture 3 LimitReached \<in> set (drop (length (trace home_state)) (trace s'))"
    by blast
  obtain r2 s2 where run2: "searchJobs detached_broken_env ''dev'' ''Athens'' 25 home_state = Some (r2, s2)"
    and tr2: "trace s2 = trace home_state @
          [Goto (search_url detached_broken_env ''dev'' ''Athens''), Capture 2 SearchPage,
           LoadJobs, Capture 3 NoJobsFound]"
    using searchJobs_nojobs_capture_trace by blast
  have in2: "Capture 3 NoJobsFound \<in> set (drop (length (trace home_state)) (trace s2))"
    by (simp add: tr2)
  have "r2 = Inl CaptureFailed"
    using capture_failure_propagates [of home_state detached_broken_env _ _ "''dev''" "''Athens''"
        25 r2 s2 3 NoJobsFound] run2 in2 bad4
    by blast
  with run2 in2 have e: "\<exists>s'. searchJobs detached_broken_env ''dev'' ''Athens'' 25 home_state
             = Some (Inl CaptureFailed, s')
          \<and> Capture 3 NoJobsFound \<in> set (drop (length (trace home_state)) (trace s'))"
    by blast
  from pg bad2 a fresh b bad1 c bad3 d bad4 e show ?thesis
    by blast
qed

end
